theory Spec2Isabelle
  imports Complex_Main
begin

section \<open>JavaScript numbers\<close>

text \<open>
  Every value that \<^verbatim>\<open>calculateSchedule\<close> and \<^verbatim>\<open>readInputs\<close> handle is a JavaScript
  number, the counters of the loop included: an IEEE 754 binary64 value. A number is
  \<open>NaN\<close>, one of the two infinities, or a finite value, carried here as the real it
  denotes. Arithmetic computes the exact real result and rounds it to the nearest binary64
  value, ties to even, overflowing to an infinity. The two zeros are identified: the program only divides by the constants
  \<^verbatim>\<open>100.0\<close> and \<^verbatim>\<open>12.0\<close>, and \<^verbatim>\<open>===\<close>, \<^verbatim>\<open><\<close> and \<^verbatim>\<open>toFixed\<close> do not tell them apart.
\<close>

datatype number = NaN | PosInf | NegInf | Fin real

definition round_half_even :: "real \<Rightarrow> int" where
  "round_half_even q =
     (let f = \<lfloor>q\<rfloor>; r = q - of_int f
      in if r < 1 / 2 then f else if 1 / 2 < r then f + 1 else if even f then f else f + 1)"

text \<open>The binary exponent of a magnitude \<open>a\<close>: \<open>2 ^ e \<le> a < 2 ^ (e + 1)\<close>, and \<open>- 1022\<close>
  (the exponent of the subnormal range) for every smaller \<open>a\<close>.\<close>

function exponent_up :: "real \<Rightarrow> int" where
  "exponent_up a = (if a < 2 then 0 else 1 + exponent_up (a / 2))"
  by pat_completeness auto
termination
  by (relation "measure (\<lambda>a. nat \<lfloor>a\<rfloor>)") (auto simp: nat_less_iff, linarith)

function exponent_down :: "real \<Rightarrow> nat \<Rightarrow> int" where
  "exponent_down a k = (if 1 \<le> a \<or> 1022 \<le> k then - int k else exponent_down (2 * a) (Suc k))"
  by pat_completeness auto
termination
  by (relation "measure (\<lambda>(a, k). 1022 - k)") auto

definition exponent_of :: "real \<Rightarrow> int" where
  "exponent_of a = (if 1 \<le> a then exponent_up a else exponent_down a 0)"

text \<open>The spacing of binary64 values around \<open>a\<close>: 53 significant bits.\<close>

definition quantum :: "real \<Rightarrow> real" where
  "quantum a = 2 powi (exponent_of a - 52)"

definition round_real :: "real \<Rightarrow> real" where
  "round_real x = of_int (round_half_even (x / quantum \<bar>x\<bar>)) * quantum \<bar>x\<bar>"

text \<open>A rounded magnitude of \<open>2 ^ 1024\<close> or more is beyond the largest binary64 value.\<close>

definition overflow_bound :: real where
  "overflow_bound = 2 ^ 1024"

definition to_number :: "real \<Rightarrow> number" where
  "to_number x =
     (let y = round_real x
      in if overflow_bound \<le> y then PosInf
         else if y \<le> - overflow_bound then NegInf
         else Fin y)"

text \<open>\<^verbatim>\<open>a + b\<close>\<close>

fun jadd :: "number \<Rightarrow> number \<Rightarrow> number" where
  "jadd NaN b = NaN"
| "jadd a NaN = NaN"
| "jadd PosInf NegInf = NaN"
| "jadd NegInf PosInf = NaN"
| "jadd PosInf b = PosInf"
| "jadd a PosInf = PosInf"
| "jadd NegInf b = NegInf"
| "jadd a NegInf = NegInf"
| "jadd (Fin x) (Fin y) = to_number (x + y)"

text \<open>\<^verbatim>\<open>a * b\<close>\<close>

fun jmul :: "number \<Rightarrow> number \<Rightarrow> number" where
  "jmul NaN b = NaN"
| "jmul a NaN = NaN"
| "jmul (Fin x) (Fin y) = to_number (x * y)"
| "jmul (Fin x) PosInf = (if x = 0 then NaN else if 0 < x then PosInf else NegInf)"
| "jmul (Fin x) NegInf = (if x = 0 then NaN else if 0 < x then NegInf else PosInf)"
| "jmul PosInf (Fin y) = (if y = 0 then NaN else if 0 < y then PosInf else NegInf)"
| "jmul NegInf (Fin y) = (if y = 0 then NaN else if 0 < y then NegInf else PosInf)"
| "jmul PosInf PosInf = PosInf"
| "jmul PosInf NegInf = NegInf"
| "jmul NegInf PosInf = NegInf"
| "jmul NegInf NegInf = PosInf"

text \<open>\<^verbatim>\<open>a / b\<close>; a zero divisor is taken as \<open>+0\<close>.\<close>

fun jdiv :: "number \<Rightarrow> number \<Rightarrow> number" where
  "jdiv NaN b = NaN"
| "jdiv a NaN = NaN"
| "jdiv (Fin x) (Fin y) =
     (if y = 0 then (if x = 0 then NaN else if 0 < x then PosInf else NegInf)
      else to_number (x / y))"
| "jdiv (Fin x) PosInf = Fin 0"
| "jdiv (Fin x) NegInf = Fin 0"
| "jdiv PosInf (Fin y) = (if 0 \<le> y then PosInf else NegInf)"
| "jdiv NegInf (Fin y) = (if 0 \<le> y then NegInf else PosInf)"
| "jdiv PosInf b = NaN"
| "jdiv NegInf b = NaN"

text \<open>\<^verbatim>\<open>a < b\<close> and \<^verbatim>\<open>a <= b\<close>: false as soon as one side is \<open>NaN\<close>.\<close>

fun jlt :: "number \<Rightarrow> number \<Rightarrow> bool" where
  "jlt NaN b = False"
| "jlt a NaN = False"
| "jlt (Fin x) (Fin y) = (x < y)"
| "jlt a PosInf = (a \<noteq> PosInf)"
| "jlt NegInf b = (b \<noteq> NegInf)"
| "jlt a b = False"

fun jle :: "number \<Rightarrow> number \<Rightarrow> bool" where
  "jle NaN b = False"
| "jle a NaN = False"
| "jle (Fin x) (Fin y) = (x \<le> y)"
| "jle a PosInf = True"
| "jle NegInf b = True"
| "jle a b = False"

text \<open>
  \<^verbatim>\<open>a % b\<close>: the dividend less the divisor times their quotient cut off toward zero. The
  result is exact. And \<^verbatim>\<open>a === b\<close>.
\<close>

definition toward_zero :: "real \<Rightarrow> int" where
  "toward_zero q = (if 0 \<le> q then \<lfloor>q\<rfloor> else \<lceil>q\<rceil>)"

fun jmod :: "number \<Rightarrow> number \<Rightarrow> number" where
  "jmod NaN b = NaN"
| "jmod a NaN = NaN"
| "jmod PosInf b = NaN"
| "jmod NegInf b = NaN"
| "jmod (Fin x) PosInf = Fin x"
| "jmod (Fin x) NegInf = Fin x"
| "jmod (Fin x) (Fin y) = (if y = 0 then NaN else Fin (x - y * of_int (toward_zero (x / y))))"

fun jeq :: "number \<Rightarrow> number \<Rightarrow> bool" where
  "jeq NaN b = False"
| "jeq a NaN = False"
| "jeq a b = (a = b)"

text \<open>\<^verbatim>\<open>Number.isNaN\<close>, \<^verbatim>\<open>Number.isFinite\<close>, \<^verbatim>\<open>Number.isInteger\<close>\<close>

fun isNaN :: "number \<Rightarrow> bool" where
  "isNaN NaN = True"
| "isNaN v = False"

fun isFinite :: "number \<Rightarrow> bool" where
  "isFinite (Fin x) = True"
| "isFinite v = False"

fun isInteger :: "number \<Rightarrow> bool" where
  "isInteger (Fin x) = (of_int \<lfloor>x\<rfloor> = x)"
| "isInteger v = False"

text \<open>
  The values the precondition of the specification admits for \<open>initialBalance\<close>,
  \<open>monthlyDeposit\<close> and \<open>annualRatePercent\<close>: finite, not negative, and a binary64 value
  (rounding leaves it as it is). \<open>nonneg\<close> are the values from 0 to \<open>+\<infinity>\<close>.
\<close>

fun amount :: "number \<Rightarrow> bool" where
  "amount (Fin x) = (0 \<le> x \<and> to_number x = Fin x)"
| "amount v = False"

fun nonneg :: "number \<Rightarrow> bool" where
  "nonneg (Fin x) = (0 \<le> x)"
| "nonneg PosInf = True"
| "nonneg v = False"

section \<open>The core calculation\<close>

record YearSummary =
  year :: number
  yearEndBalance :: number
  yearEndInterest :: number

text \<open>
  The only operation of \<^verbatim>\<open>calculateSchedule\<close> that can throw is \<^verbatim>\<open>results.push\<close>: an
  array holds at most \<open>2 ^ 32 - 1 = 4294967295\<close> elements, and \<^verbatim>\<open>push\<close> on an array of that
  length throws a \<^verbatim>\<open>RangeError\<close> when it sets the length to \<open>2 ^ 32\<close>. These are the limits
  of the language; memory is not bounded here, and an engine that runs out of it fails
  earlier than the model does.
\<close>

datatype error = RangeError

text \<open>
  The \<^verbatim>\<open>for\<close> loop of \<^verbatim>\<open>calculateSchedule\<close> in \<^verbatim>\<open>src/app.js\<close>. The mutable locals
  \<^verbatim>\<open>month\<close>, \<^verbatim>\<open>openingBalance\<close>, \<^verbatim>\<open>interestSoFar\<close>, \<^verbatim>\<open>year\<close> and \<^verbatim>\<open>results\<close> are the
  arguments that change in the recursive call; the local \<^verbatim>\<open>year\<close> is \<open>yr\<close> here, \<open>year\<close>
  being the field of the summary. The counters are numbers as every other value:
  \<^verbatim>\<open>month++\<close> and \<^verbatim>\<open>year += 1\<close> are rounded additions, and \<^verbatim>\<open>month <= totalMonths\<close> and
  \<^verbatim>\<open>month % 12 === 0\<close> compare numbers. A loop need not come to an end, so the result is
  an option: \<open>None\<close> when the loop runs forever, \<open>Some (Inl RangeError)\<close> when it throws,
  \<open>Some (Inr results)\<close> when it returns.
\<close>

partial_function (option) schedule_loop ::
  "number \<Rightarrow> number \<Rightarrow> number \<Rightarrow> number \<Rightarrow> number \<Rightarrow> number \<Rightarrow> number \<Rightarrow> YearSummary list
     \<Rightarrow> (error + YearSummary list) option" where
  "schedule_loop totalMonths deposit annualInterestRate month openingBalance interestSoFar
       yr results =
     (if jle month totalMonths then
        (let interest =
               jmul (jadd openingBalance deposit)
                 (jdiv (jdiv annualInterestRate (Fin 100)) (Fin 12));
             interestSoFar' = jadd interestSoFar interest;
             closingBalance = jadd (jadd openingBalance deposit) interest
         in if jeq (jmod month (Fin 12)) (Fin 0) then
              (if length results < 4294967295 then
                 schedule_loop totalMonths deposit annualInterestRate (jadd month (Fin 1))
                   closingBalance (Fin 0) (jadd yr (Fin 1))
                   (results @ [\<lparr>year = yr, yearEndBalance = closingBalance,
                                 yearEndInterest = interestSoFar'\<rparr>])
               else Some (Inl RangeError))
            else
              schedule_loop totalMonths deposit annualInterestRate (jadd month (Fin 1))
                closingBalance interestSoFar' yr results)
      else Some (Inr results))"

definition calculateSchedule ::
  "number \<Rightarrow> number \<Rightarrow> number \<Rightarrow> number \<Rightarrow> bool \<Rightarrow> (error + YearSummary list) option" where
  "calculateSchedule initialInvestment monthlyDeposit annualInterestRate years withDeposit =
     (let totalMonths = jmul years (Fin 12);
          deposit = (if withDeposit then monthlyDeposit else Fin 0)
      in schedule_loop totalMonths deposit annualInterestRate (Fin 1) initialInvestment (Fin 0)
           (Fin 1) [])"

text \<open>The same function as \<^verbatim>\<open>src/unnamed/part_000\<close> has it.\<close>

partial_function (option) schedule_loop_part_000 ::
  "number \<Rightarrow> number \<Rightarrow> number \<Rightarrow> number \<Rightarrow> number \<Rightarrow> number \<Rightarrow> number \<Rightarrow> YearSummary list
     \<Rightarrow> (error + YearSummary list) option" where
  "schedule_loop_part_000 totalMonths deposit annualInterestRate month openingBalance
       interestSoFar yr results =
     (if jle month totalMonths then
        (let interest =
               jmul (jadd openingBalance deposit)
                 (jdiv (jdiv annualInterestRate (Fin 100)) (Fin 12));
             interestSoFar' = jadd interestSoFar interest;
             closingBalance = jadd (jadd openingBalance deposit) interest
         in if jeq (jmod month (Fin 12)) (Fin 0) then
              (if length results < 4294967295 then
                 schedule_loop_part_000 totalMonths deposit annualInterestRate (jadd month (Fin 1))
                   closingBalance (Fin 0) (jadd yr (Fin 1))
                   (results @ [\<lparr>year = yr, yearEndBalance = closingBalance,
                                 yearEndInterest = interestSoFar'\<rparr>])
               else Some (Inl RangeError))
            else
              schedule_loop_part_000 totalMonths deposit annualInterestRate (jadd month (Fin 1))
                closingBalance interestSoFar' yr results)
      else Some (Inr results))"

definition calculateSchedule_part_000 ::
  "number \<Rightarrow> number \<Rightarrow> number \<Rightarrow> number \<Rightarrow> bool \<Rightarrow> (error + YearSummary list) option" where
  "calculateSchedule_part_000 initialInvestment monthlyDeposit annualInterestRate years
       withDeposit =
     (let totalMonths = jmul years (Fin 12);
          deposit = (if withDeposit then monthlyDeposit else Fin 0)
      in schedule_loop_part_000 totalMonths deposit annualInterestRate (Fin 1)
           initialInvestment (Fin 0) (Fin 1) [])"

text \<open>The rows a call returns; none when it throws or does not come back.\<close>

fun returned :: "(error + 'a list) option \<Rightarrow> 'a list" where
  "returned (Some (Inr rows)) = rows"
| "returned v = []"

subsection \<open>The loop's variables, month by month\<close>

text \<open>
  \<open>balance_after b d r m\<close> is \<^verbatim>\<open>closingBalance\<close> at the end of month \<open>m\<close> (the initial
  investment for \<open>m = 0\<close>), \<open>interest_in b d r m\<close> is \<^verbatim>\<open>interest\<close> in month \<open>m\<close>, and
  \<open>interest_between b d r lo hi\<close> is what \<^verbatim>\<open>interestSoFar += interest\<close> has accumulated,
  starting from \<^verbatim>\<open>0.0\<close>, over the months \<open>lo + 1, \<dots>, hi\<close>, in this order.
\<close>

primrec balance_after :: "number \<Rightarrow> number \<Rightarrow> number \<Rightarrow> nat \<Rightarrow> number" where
  "balance_after b d r 0 = b"
| "balance_after b d r (Suc m) =
     jadd (jadd (balance_after b d r m) d)
       (jmul (jadd (balance_after b d r m) d) (jdiv (jdiv r (Fin 100)) (Fin 12)))"

definition interest_in :: "number \<Rightarrow> number \<Rightarrow> number \<Rightarrow> nat \<Rightarrow> number" where
  "interest_in b d r m =
     jmul (jadd (balance_after b d r (m - 1)) d) (jdiv (jdiv r (Fin 100)) (Fin 12))"

definition interest_between :: "number \<Rightarrow> number \<Rightarrow> number \<Rightarrow> nat \<Rightarrow> nat \<Rightarrow> number" where
  "interest_between b d r lo hi = foldl jadd (Fin 0) (map (interest_in b d r) [Suc lo..<Suc hi])"

definition summary_of :: "number \<Rightarrow> number \<Rightarrow> number \<Rightarrow> nat \<Rightarrow> YearSummary" where
  "summary_of b d r y =
     \<lparr>year = Fin (real y), yearEndBalance = balance_after b d r (12 * y),
      yearEndInterest = interest_between b d r (12 * (y - 1)) (12 * y)\<rparr>"

text \<open>
  How many times the body of the loop runs for a value of \<^verbatim>\<open>totalMonths\<close>: once for each
  whole month from 1 up to it. There is no such number when the array is full first, which
  is at the push of month \<open>12 * 2 ^ 32 = 51539607552\<close>. Up to that month the counters are
  exact, \<^verbatim>\<open>month++\<close> being exact below \<open>2 ^ 53\<close>; the month at which it would stop growing
  is never reached.
\<close>

fun month_count :: "number \<Rightarrow> nat option" where
  "month_count (Fin t) = (if t < 51539607552 then Some (nat \<lfloor>t\<rfloor>) else None)"
| "month_count PosInf = None"
| "month_count v = Some 0"

text \<open>One month on a finite balance \<open>x\<close> at monthly rate \<open>q\<close>, while nothing overflows.\<close>

definition month_real :: "real \<Rightarrow> real \<Rightarrow> real \<Rightarrow> real" where
  "month_real d q x =
     round_real (round_real (x + d) + round_real (round_real (x + d) * q))"

text \<open>
  \<open>after_months\<close> is the loop entered with its variables as they are after \<open>m\<close> months, and
  \<open>year_count\<close> the number of rows a call with a given \<^verbatim>\<open>years\<close> returns.
\<close>

definition after_months ::
  "number \<Rightarrow> number \<Rightarrow> number \<Rightarrow> number \<Rightarrow> nat \<Rightarrow> (error + YearSummary list) option" where
  "after_months totalMonths b d r m =
     schedule_loop totalMonths d r (Fin (real (Suc m))) (balance_after b d r m)
       (interest_between b d r (12 * (m div 12)) m) (Fin (real (Suc (m div 12))))
       (map (summary_of b d r) [1..<Suc (m div 12)])"

definition year_count :: "number \<Rightarrow> nat" where
  "year_count years =
     (case month_count (jmul years (Fin 12)) of None \<Rightarrow> 0 | Some n \<Rightarrow> n div 12)"

section \<open>The reference simulation of the specification\<close>

text \<open>
  Section 4.1 of the specification, step by step: the state of step 2, one month of step 3
  (a to f), the months from 1 to \<open>totalMonths\<close>, and the emitted summaries of step 4. Its
  \<open>years\<close>, \<open>month\<close> and \<open>currentYear\<close> are the whole numbers of the specification.
\<close>

record simulation =
  openingBalance :: number
  yearlyInterestAccumulator :: number
  currentYear :: int
  emitted :: "YearSummary list"

definition simulate_month :: "number \<Rightarrow> number \<Rightarrow> nat \<Rightarrow> simulation \<Rightarrow> simulation" where
  "simulate_month deposit annualRatePercent month s =
     (let monthlyRate = jdiv (jdiv annualRatePercent (Fin 100)) (Fin 12);
          interest = jmul (jadd (openingBalance s) deposit) monthlyRate;
          accumulator = jadd (yearlyInterestAccumulator s) interest;
          closing = jadd (jadd (openingBalance s) deposit) interest
      in if 12 dvd month then
           \<lparr>openingBalance = closing, yearlyInterestAccumulator = Fin 0,
            currentYear = currentYear s + 1,
            emitted = emitted s @ [\<lparr>year = Fin (of_int (currentYear s)),
                                      yearEndBalance = closing,
                                      yearEndInterest = accumulator\<rparr>]\<rparr>
         else s\<lparr>openingBalance := closing, yearlyInterestAccumulator := accumulator\<rparr>)"

primrec simulate_months :: "number \<Rightarrow> number \<Rightarrow> number \<Rightarrow> nat \<Rightarrow> simulation" where
  "simulate_months initialBalance deposit annualRatePercent 0 =
     \<lparr>openingBalance = initialBalance, yearlyInterestAccumulator = Fin 0, currentYear = 1,
      emitted = []\<rparr>"
| "simulate_months initialBalance deposit annualRatePercent (Suc n) =
     simulate_month deposit annualRatePercent (Suc n)
       (simulate_months initialBalance deposit annualRatePercent n)"

definition reference_simulation ::
  "number \<Rightarrow> number \<Rightarrow> number \<Rightarrow> nat \<Rightarrow> bool \<Rightarrow> YearSummary list" where
  "reference_simulation initialBalance monthlyDeposit annualRatePercent years applyDeposit =
     emitted (simulate_months initialBalance (if applyDeposit then monthlyDeposit else Fin 0)
       annualRatePercent (years * 12))"

section \<open>The validation gate\<close>

text \<open>
  \<^verbatim>\<open>readInputs\<close> converts the four form fields with \<^verbatim>\<open>Number\<close> and checks the results;
  the arguments here are the four converted numbers. The result is either
  \<^verbatim>\<open>{ ok: false, message }\<close> or \<^verbatim>\<open>{ ok: true, initial, monthly, rate, years }\<close>.
\<close>

datatype read_result = Rejected string | Parsed number number number number

definition readInputs :: "number \<Rightarrow> number \<Rightarrow> number \<Rightarrow> number \<Rightarrow> read_result" where
  "readInputs initial monthly rate years =
     (if list_ex isNaN [initial, monthly, rate, years] then
        Rejected ''Invalid input. Please enter numeric values.''
      else if jlt initial (Fin 0) \<or> jlt monthly (Fin 0) \<or> jlt rate (Fin 0) then
        Rejected ''Invalid input. Please enter non-negative values.''
      else if \<not> isInteger years \<or> jle years (Fin 0) then
        Rejected ''Invalid input. Please enter a whole number of years greater than 0.''
      else Parsed initial monthly rate years)"

text \<open>
  \<^verbatim>\<open>runCalculation\<close> writes the error line and the two table bodies of the page. The rows
  are kept as summaries; \<^verbatim>\<open>renderRows\<close> formats them for display. When a call of the core
  throws or does not come back, so does \<^verbatim>\<open>runCalculation\<close>, and nothing is rendered.
\<close>

record page =
  errorText :: string
  noDepBody :: "YearSummary list"
  depBody :: "YearSummary list"

definition runCalculation ::
  "number \<Rightarrow> number \<Rightarrow> number \<Rightarrow> number \<Rightarrow> page \<Rightarrow> (error + page) option" where
  "runCalculation initial monthly rate years p =
     (case readInputs initial monthly rate years of
        Rejected message \<Rightarrow> Some (Inr (p\<lparr>errorText := message\<rparr>))
      | Parsed i m r y \<Rightarrow>
          (case calculateSchedule i m r y False of
             None \<Rightarrow> None
           | Some (Inl e) \<Rightarrow> Some (Inl e)
           | Some (Inr noDep) \<Rightarrow>
               (case calculateSchedule i m r y True of
                  None \<Rightarrow> None
                | Some (Inl e) \<Rightarrow> Some (Inl e)
                | Some (Inr dep) \<Rightarrow>
                    Some (Inr (p\<lparr>errorText := [], noDepBody := noDep, depBody := dep\<rparr>)))))"

section \<open>Reading the claims\<close>

text \<open>
  A sum of numbers as a program takes it, adding from \<^verbatim>\<open>0\<close> on in order, and the sum of
  the reals they denote; the interest of every month of a run; and a number that
  \<^verbatim>\<open>toFixed(2)\<close> shows as the amount \<open>c\<close>.
\<close>

definition sum_numbers :: "number list \<Rightarrow> number" where
  "sum_numbers xs = foldl jadd (Fin 0) xs"

fun real_of :: "number \<Rightarrow> real" where
  "real_of (Fin x) = x"
| "real_of v = 0"

definition exact_sum :: "number list \<Rightarrow> real" where
  "exact_sum xs = sum_list (map real_of xs)"

definition monthly_interests :: "number \<Rightarrow> number \<Rightarrow> number \<Rightarrow> nat \<Rightarrow> number list" where
  "monthly_interests b d r years = map (interest_in b d r) [1..<Suc (12 * years)]"

fun agrees_to_cents :: "number \<Rightarrow> real \<Rightarrow> bool" where
  "agrees_to_cents (Fin x) c = (c - 1 / 200 \<le> x \<and> x < c + 1 / 200)"
| "agrees_to_cents v c = False"

text \<open>The spacing of binary64 values at a number, for the size of a deposit against it.\<close>

fun spacing :: "number \<Rightarrow> real" where
  "spacing (Fin x) = quantum \<bar>x\<bar>"
| "spacing v = 0"

declare exponent_up.simps [simp del] exponent_down.simps [simp del]

text \<open>Unfolding these evaluates an operation on numerals.\<close>

lemmas number_eval = to_number_def round_real_def quantum_def exponent_of_def exponent_up.simps
  exponent_down.simps round_half_even_def Let_def overflow_bound_def

section \<open>Rounding to binary64\<close>

text \<open>What the exponent search computes, and evaluation of \<open>to_number\<close> from it.\<close>

lemma powi_half: "(2::real) powi (e - 1) = 2 powi e / 2"
  by (simp add: power_int_diff)

lemma powi_double: "(2::real) powi (e + 1) = 2 * 2 powi e"
  by (simp add: power_int_add)

lemma exponent_up_eq:
  "2 ^ n \<le> a \<Longrightarrow> a < 2 ^ Suc n \<Longrightarrow> exponent_up a = int n"
proof (induction n arbitrary: a)
  case 0
  then show ?case by (subst exponent_up.simps) simp
next
  case (Suc n)
  have "(1::real) \<le> 2 ^ n" by simp
  moreover from Suc.prems(1) have "2 * 2 ^ n \<le> a" by simp
  ultimately have "2 \<le> a" by linarith
  have "exponent_up (a / 2) = int n"
    using Suc.prems by (intro Suc.IH) simp_all
  then show ?case using \<open>2 \<le> a\<close> by (subst exponent_up.simps) simp
qed

lemma exponent_down_eq:
  "k + j \<le> 1022 \<Longrightarrow> 2 powi (- int j) \<le> a \<Longrightarrow> a < 2 powi (1 - int j) \<Longrightarrow>
   exponent_down a k = - int (k + j)"
proof (induction j arbitrary: a k)
  case 0
  then show ?case by (subst exponent_down.simps) simp
next
  case (Suc j)
  have "- int (Suc j) = - int j - 1" by simp
  then have e1: "(2::real) powi (- int (Suc j)) = 2 powi (- int j) / 2"
    by (simp only: powi_half)
  have "1 - int (Suc j) = 1 - int j - 1" by simp
  then have e2: "(2::real) powi (1 - int (Suc j)) = 2 powi (1 - int j) / 2"
    by (simp only: powi_half)
  have "(2::real) powi (1 - int (Suc j)) \<le> 2 powi 0"
    by (rule power_int_increasing) simp_all
  with Suc.prems have a1: "a < 1" by simp
  have k: "\<not> 1022 \<le> k" using Suc.prems by simp
  from Suc.prems(2) have "2 powi (- int j) / 2 \<le> a" unfolding e1 .
  then have l: "2 powi (- int j) \<le> 2 * a" by simp
  from Suc.prems(3) have "a < 2 powi (1 - int j) / 2" unfolding e2 .
  then have u: "2 * a < 2 powi (1 - int j)" by simp
  have kj: "Suc k + j \<le> 1022" using Suc.prems(1) by simp
  have "exponent_down (2 * a) (Suc k) = - int (Suc k + j)"
    by (rule Suc.IH [OF kj l u])
  with a1 k show ?case by (subst exponent_down.simps) simp
qed

lemma exponent_down_subnormal:
  "k \<le> 1022 \<Longrightarrow> a < 2 powi (- int (1022 - k)) \<Longrightarrow> exponent_down a k = - 1022"
proof (induction "1022 - k" arbitrary: a k)
  case 0
  then show ?case by (subst exponent_down.simps) simp
next
  case (Suc n)
  then have k: "\<not> 1022 \<le> k" and n: "n = 1022 - Suc k" and k': "Suc k \<le> 1022" by simp_all
  have "(2::real) powi (- int (1022 - k)) \<le> 2 powi 0"
    by (rule power_int_increasing) simp_all
  with Suc.prems have a1: "\<not> 1 \<le> a" by simp
  have "- int (1022 - k) = - int (1022 - Suc k) - 1" using k by simp
  then have "(2::real) powi (- int (1022 - k)) = 2 powi (- int (1022 - Suc k)) / 2"
    by (simp only: powi_half)
  with Suc.prems(2) have "2 * a < 2 powi (- int (1022 - Suc k))" by simp
  then have "exponent_down (2 * a) (Suc k) = - 1022"
    by (rule Suc.hyps(1) [OF n k'])
  with a1 k show ?case by (subst exponent_down.simps) simp
qed

lemma exponent_of_normal:
  assumes "2 powi e \<le> a" "a < 2 powi (e + 1)" "- 1022 \<le> e"
  shows "exponent_of a = e"
proof (cases "0 \<le> e")
  case True
  define n where "n = nat e"
  have e: "e = int n" using True by (simp add: n_def)
  have l: "2 ^ n \<le> a" using assms(1) by (simp add: e)
  have "int n + 1 = int (Suc n)" by simp
  then have u: "a < 2 ^ Suc n" using assms(2) unfolding e by (simp only: power_int_of_nat)
  have "(1::real) \<le> 2 ^ n" by simp
  with l have "1 \<le> a" by linarith
  then show ?thesis
    by (simp add: exponent_of_def exponent_up_eq [OF l u] e)
next
  case False
  define j where "j = nat (- e)"
  have e: "e = - int j" and j: "j \<le> 1022" "0 < j"
    using False assms(3) by (simp_all add: j_def)
  have "e + 1 \<le> 0" using False by simp
  then have "(2::real) powi (e + 1) \<le> 2 powi 0"
    by (intro power_int_increasing) simp_all
  with assms(2) have a1: "\<not> 1 \<le> a" by simp
  have u: "a < 2 powi (1 - int j)" using assms(2) by (simp add: e add.commute)
  have l: "2 powi (- int j) \<le> a" using assms(1) by (simp add: e)
  have "exponent_down a 0 = - int (0 + j)"
    by (rule exponent_down_eq [OF _ l u]) (simp add: j)
  with a1 show ?thesis by (simp add: exponent_of_def e)
qed

lemma exponent_of_subnormal:
  assumes "a < 2 powi (- 1022)"
  shows "exponent_of a = - 1022"
proof -
  have "(2::real) powi (- 1022) \<le> 2 powi 0"
    by (rule power_int_increasing) simp_all
  with assms have a1: "\<not> 1 \<le> a" by simp
  have "exponent_down a 0 = - 1022"
    by (rule exponent_down_subnormal) (use assms in simp_all)
  with a1 show ?thesis by (simp add: exponent_of_def)
qed

lemma round_real_normal:
  assumes "2 powi e \<le> \<bar>x\<bar>" "\<bar>x\<bar> < 2 powi (e + 1)" "- 1022 \<le> e"
  shows "round_real x = of_int (round_half_even (x / 2 powi (e - 52))) * 2 powi (e - 52)"
  by (simp add: round_real_def quantum_def exponent_of_normal [OF assms])

lemma round_real_subnormal:
  assumes "\<bar>x\<bar> < 2 powi (- 1022)"
  shows "round_real x = of_int (round_half_even (x / 2 powi (- 1074))) * 2 powi (- 1074)"
  by (simp add: round_real_def quantum_def exponent_of_subnormal [OF assms])

lemma to_number_eval:
  assumes "2 powi e \<le> \<bar>x\<bar>" "\<bar>x\<bar> < 2 powi (e + 1)" "- 1022 \<le> e"
    and "round_half_even (x / 2 powi (e - 52)) = n"
    and "y = of_int n * 2 powi (e - 52)"
    and "\<bar>y\<bar> < overflow_bound"
  shows "to_number x = Fin y"
proof -
  have "round_real x = y"
    using round_real_normal [OF assms(1-3)] assms(4,5) by simp
  with assms(6) show ?thesis
    by (auto simp: to_number_def Let_def)
qed

lemma to_number_zero: "to_number 0 = Fin 0"
proof -
  have "round_real 0 = 0"
    using round_real_subnormal [of 0] by (simp add: round_half_even_def)
  then show ?thesis by (simp add: to_number_def overflow_bound_def)
qed

text \<open>Rounding is monotone on the non-negative reals.\<close>

lemma round_half_even_lower: "\<lfloor>q\<rfloor> \<le> round_half_even q"
  by (simp add: round_half_even_def Let_def)

lemma round_half_even_upper: "round_half_even q \<le> \<lfloor>q\<rfloor> + 1"
  by (simp add: round_half_even_def Let_def)

lemma round_half_even_of_int: "round_half_even (of_int n) = n"
  by (simp add: round_half_even_def)

lemma round_half_even_mono:
  assumes "q \<le> q'"
  shows "round_half_even q \<le> round_half_even q'"
proof (cases "\<lfloor>q\<rfloor> < \<lfloor>q'\<rfloor>")
  case True
  have "round_half_even q \<le> \<lfloor>q\<rfloor> + 1" by (rule round_half_even_upper)
  also have "\<dots> \<le> \<lfloor>q'\<rfloor>" using True by simp
  also have "\<dots> \<le> round_half_even q'" by (rule round_half_even_lower)
  finally show ?thesis .
next
  case False
  with floor_mono [OF assms] have "\<lfloor>q\<rfloor> = \<lfloor>q'\<rfloor>" by simp
  with assms show ?thesis
    by (auto simp: round_half_even_def Let_def)
qed

lemma exponent_exists:
  assumes "2 powi (- 1022) \<le> (a::real)"
  obtains e where "- 1022 \<le> e" "2 powi e \<le> a" "a < 2 powi (e + 1)"
proof -
  have "(0::real) < 2 powi (- 1022)" by (rule zero_less_power_int) simp
  with assms have a0: "0 < a" by linarith
  define e where "e = \<lfloor>log 2 a\<rfloor>"
  have "2 powr (real_of_int e) \<le> a \<and> a < 2 powr (real_of_int e + 1)"
    using floor_log_eq_powr_iff [of a 2 e] a0 by (simp add: e_def)
  moreover have "(2::real) powr (real_of_int e) = 2 powi e"
    by (rule powr_real_of_int') simp_all
  moreover have "(2::real) powr (real_of_int e + 1) = 2 powi (e + 1)"
    using powr_real_of_int' [of 2 "e + 1"] by simp
  ultimately have l: "2 powi e \<le> a" and u: "a < 2 powi (e + 1)" by simp_all
  have "- 1022 \<le> e"
  proof (rule ccontr)
    assume "\<not> - 1022 \<le> e"
    then have "e + 1 \<le> - 1022" by simp
    then have "(2::real) powi (e + 1) \<le> 2 powi (- 1022)"
      by (rule power_int_increasing) simp
    with u assms show False by linarith
  qed
  with l u that show thesis by blast
qed

lemma exponent_of_ge: "- 1022 \<le> exponent_of a"
proof (cases "a < 2 powi (- 1022)")
  case True
  then show ?thesis by (simp add: exponent_of_subnormal)
next
  case False
  then have "2 powi (- 1022) \<le> a" by simp
  then obtain e where "- 1022 \<le> e" "2 powi e \<le> a" "a < 2 powi (e + 1)"
    by (rule exponent_exists)
  then show ?thesis by (simp add: exponent_of_normal)
qed

lemma exponent_of_upper: "a < 2 powi (exponent_of a + 1)"
proof (cases "a < 2 powi (- 1022)")
  case True
  have "(2::real) powi (- 1022) \<le> 2 powi (- 1022 + 1)"
    by (rule power_int_increasing) simp_all
  with True show ?thesis by (simp add: exponent_of_subnormal)
next
  case False
  then have "2 powi (- 1022) \<le> a" by simp
  then obtain e where "- 1022 \<le> e" "2 powi e \<le> a" "a < 2 powi (e + 1)"
    by (rule exponent_exists)
  then show ?thesis by (simp add: exponent_of_normal)
qed

lemma exponent_of_lower:
  assumes "2 powi (- 1022) \<le> a"
  shows "2 powi (exponent_of a) \<le> a"
proof -
  from assms obtain e where "- 1022 \<le> e" "2 powi e \<le> a" "a < 2 powi (e + 1)"
    by (rule exponent_exists)
  then show ?thesis by (simp add: exponent_of_normal)
qed

lemma exponent_of_above_subnormal:
  assumes "- 1022 < exponent_of a"
  shows "2 powi (exponent_of a) \<le> a"
proof (rule exponent_of_lower, rule ccontr)
  assume "\<not> 2 powi (- 1022) \<le> a"
  then have "exponent_of a = - 1022" by (simp add: exponent_of_subnormal)
  with assms show False by simp
qed

lemma quantum_pos: "0 < quantum a"
  unfolding quantum_def by (rule zero_less_power_int) simp

lemma quantum_scale: "2 powi k * quantum a = 2 powi (exponent_of a + (k - 52))"
proof -
  have "(2::real) powi (k + (exponent_of a - 52)) = 2 powi k * 2 powi (exponent_of a - 52)"
    by (rule power_int_add) simp
  moreover have "exponent_of a + (k - 52) = k + (exponent_of a - 52)" by simp
  ultimately show ?thesis unfolding quantum_def by (simp only:)
qed

lemma round_real_nonneg:
  assumes "0 \<le> x"
  shows "0 \<le> round_real x"
proof -
  have "0 \<le> x / quantum \<bar>x\<bar>" using assms quantum_pos [of "\<bar>x\<bar>"] by simp
  then have "0 \<le> \<lfloor>x / quantum \<bar>x\<bar>\<rfloor>" by simp
  also have "\<dots> \<le> round_half_even (x / quantum \<bar>x\<bar>)" by (rule round_half_even_lower)
  finally show ?thesis
    unfolding round_real_def using quantum_pos [of "\<bar>x\<bar>"] by simp
qed

lemma round_real_below_next_binade:
  assumes "0 \<le> x"
  shows "round_real x \<le> 2 powi (exponent_of x + 1)"
proof -
  have x: "\<bar>x\<bar> = x" using assms by simp
  have "x < 2 powi (exponent_of x + 1)" by (rule exponent_of_upper)
  also have "\<dots> = 2 powi 53 * quantum x" by (simp only: quantum_scale) simp
  finally have "x / quantum x \<le> 2 powi 53"
    using quantum_pos [of x] by (simp add: pos_divide_le_eq)
  also have "(2::real) powi 53 = of_int (2 ^ 53)" by simp
  finally have "round_half_even (x / quantum x) \<le> round_half_even (of_int (2 ^ 53))"
    by (rule round_half_even_mono)
  then have "round_half_even (x / quantum x) \<le> 2 ^ 53"
    by (simp only: round_half_even_of_int)
  then have "real_of_int (round_half_even (x / quantum x)) \<le> 2 powi 53"
    by (metis of_int_le_iff of_int_numeral of_int_power power_int_numeral)
  then have "of_int (round_half_even (x / quantum x)) * quantum x \<le> 2 powi 53 * quantum x"
    using quantum_pos [of x] by simp
  then show ?thesis by (simp only: round_real_def x quantum_scale) simp
qed

lemma round_real_above_binade:
  assumes "- 1022 < exponent_of x" "0 \<le> x"
  shows "2 powi (exponent_of x) \<le> round_real x"
proof -
  have x: "\<bar>x\<bar> = x" using assms by simp
  have "2 powi 52 * quantum x = 2 powi (exponent_of x)" by (simp only: quantum_scale) simp
  also have "\<dots> \<le> x" by (rule exponent_of_above_subnormal [OF assms(1)])
  finally have "2 powi 52 \<le> x / quantum x"
    using quantum_pos [of x] by (simp add: pos_le_divide_eq)
  moreover have "(2::real) powi 52 = of_int (2 ^ 52)" by simp
  ultimately have "round_half_even (of_int (2 ^ 52)) \<le> round_half_even (x / quantum x)"
    by (intro round_half_even_mono) simp
  then have "2 ^ 52 \<le> round_half_even (x / quantum x)"
    by (simp only: round_half_even_of_int)
  then have "2 powi 52 \<le> real_of_int (round_half_even (x / quantum x))"
    by (metis of_int_le_iff of_int_numeral of_int_power power_int_numeral)
  then have "2 powi 52 * quantum x \<le> of_int (round_half_even (x / quantum x)) * quantum x"
    using quantum_pos [of x] by simp
  then show ?thesis by (simp only: round_real_def x quantum_scale) simp
qed

lemma exponent_of_mono:
  assumes "a \<le> b"
  shows "exponent_of a \<le> exponent_of b"
proof (cases "a < 2 powi (- 1022)")
  case True
  then show ?thesis by (simp add: exponent_of_subnormal exponent_of_ge)
next
  case False
  then have l: "2 powi (exponent_of a) \<le> a" by (simp add: exponent_of_lower)
  have u: "b < 2 powi (exponent_of b + 1)" by (rule exponent_of_upper)
  show ?thesis
  proof (rule ccontr)
    assume "\<not> exponent_of a \<le> exponent_of b"
    then have "exponent_of b + 1 \<le> exponent_of a" by simp
    then have "(2::real) powi (exponent_of b + 1) \<le> 2 powi (exponent_of a)"
      by (rule power_int_increasing) simp
    with l u assms show False by linarith
  qed
qed

lemma round_real_mono:
  assumes "0 \<le> x" "x \<le> y"
  shows "round_real x \<le> round_real y"
proof (cases "exponent_of x = exponent_of y")
  case True
  have x: "\<bar>x\<bar> = x" and y: "\<bar>y\<bar> = y" using assms by simp_all
  have q: "quantum x = quantum y" by (simp add: quantum_def True)
  have "x / quantum y \<le> y / quantum y"
    using assms(2) quantum_pos [of y] by (simp add: divide_right_mono)
  then have "round_half_even (x / quantum y) \<le> round_half_even (y / quantum y)"
    by (rule round_half_even_mono)
  then show ?thesis
    using quantum_pos [of y] by (simp add: round_real_def x y q)
next
  case False
  with exponent_of_mono [OF assms(2)] have lt: "exponent_of x < exponent_of y" by simp
  have "round_real x \<le> 2 powi (exponent_of x + 1)"
    by (rule round_real_below_next_binade [OF assms(1)])
  also have "\<dots> \<le> 2 powi (exponent_of y)"
    by (rule power_int_increasing) (use lt in simp_all)
  also have "\<dots> \<le> round_real y"
  proof (rule round_real_above_binade)
    show "- 1022 < exponent_of y" using lt exponent_of_ge [of x] by simp
    show "0 \<le> y" using assms by simp
  qed
  finally show ?thesis .
qed

text \<open>Sums and products of values in \<open>[0, +\<infinity>]\<close> are monotone.\<close>

lemma to_number_nonneg:
  assumes "0 \<le> x"
  shows "nonneg (to_number x)"
proof -
  have "0 \<le> round_real x" by (rule round_real_nonneg [OF assms])
  moreover have "(0::real) < overflow_bound" by (simp add: overflow_bound_def)
  ultimately show ?thesis by (simp add: to_number_def Let_def)
qed

lemma to_number_mono:
  assumes "0 \<le> x" "x \<le> y"
  shows "jle (to_number x) (to_number y)"
proof -
  have xy: "round_real x \<le> round_real y" by (rule round_real_mono [OF assms])
  have x0: "0 \<le> round_real x" by (rule round_real_nonneg [OF assms(1)])
  have b: "(0::real) < overflow_bound" by (simp add: overflow_bound_def)
  from xy x0 b show ?thesis by (simp add: to_number_def Let_def)
qed

lemma nonneg_cases:
  assumes "nonneg a"
  obtains x where "a = Fin x" "0 \<le> x" | "a = PosInf"
  using assms by (cases a) simp_all

lemma jle_PosInf: "nonneg a \<Longrightarrow> jle a PosInf"
  by (cases a) simp_all

lemma jle_refl: "nonneg a \<Longrightarrow> jle a a"
  by (cases a) simp_all

lemma jadd_nonneg: "nonneg a \<Longrightarrow> nonneg b \<Longrightarrow> nonneg (jadd a b)"
  by (cases a; cases b) (simp_all add: to_number_nonneg)

lemma jadd_mono:
  assumes "nonneg a" "nonneg b" "nonneg a'" "nonneg b'" "jle a a'" "jle b b'"
  shows "jle (jadd a b) (jadd a' b')"
proof (cases "a' = PosInf \<or> b' = PosInf")
  case True
  then have "jadd a' b' = PosInf" using assms(3,4) by (cases a'; cases b') simp_all
  then show ?thesis using jadd_nonneg [OF assms(1,2)] by (simp add: jle_PosInf)
next
  case False
  with assms obtain x y x' y' where "a = Fin x" "b = Fin y" "a' = Fin x'" "b' = Fin y'"
    by (cases a; cases b; cases a'; cases b') simp_all
  with assms show ?thesis by (simp add: to_number_mono)
qed

lemma jmul_nonneg: "nonneg a \<Longrightarrow> 0 \<le> q \<Longrightarrow> \<not> isNaN (jmul a (Fin q)) \<Longrightarrow> nonneg (jmul a (Fin q))"
  by (cases a) (simp_all add: to_number_nonneg split: if_splits)

lemma jmul_mono:
  assumes "nonneg a" "nonneg a'" "jle a a'" "0 \<le> q" "\<not> isNaN (jmul a' (Fin q))"
  shows "jle (jmul a (Fin q)) (jmul a' (Fin q)) \<and> nonneg (jmul a (Fin q))"
proof (cases a')
  case (Fin x')
  with assms(1,3) obtain x where a: "a = Fin x" by (cases a) simp_all
  with assms Fin have "0 \<le> x * q" "x * q \<le> x' * q"
    by (simp_all add: mult_right_mono)
  then show ?thesis by (simp add: a Fin to_number_mono to_number_nonneg)
next
  case PosInf
  with assms(4,5) have q: "0 < q" by (cases "q = 0") simp_all
  show ?thesis
  proof (cases a)
    case (Fin x)
    with assms(1) q have "0 \<le> x * q" by simp
    then have "nonneg (to_number (x * q))" by (rule to_number_nonneg)
    then show ?thesis using q by (simp add: Fin PosInf jle_PosInf)
  qed (use assms(1) q PosInf in simp_all)
qed (use assms(2) in simp_all)

text \<open>Whole numbers below \<open>2 ^ 53\<close> are binary64 values, so the counters of the loop are exact;
  the rounding error is at most half the spacing; rounding twice is rounding once.\<close>

lemma exponent_of_one: "exponent_of 1 = 0"
  by (rule exponent_of_normal) simp_all

lemma round_real_multiple:
  assumes "x = of_int n * quantum \<bar>x\<bar>"
  shows "round_real x = x"
proof -
  have "x / quantum \<bar>x\<bar> = of_int n"
    using assms quantum_pos [of "\<bar>x\<bar>"] by (simp add: field_simps)
  then have "round_half_even (x / quantum \<bar>x\<bar>) = n"
    by (simp only: round_half_even_of_int)
  then show ?thesis using assms by (simp add: round_real_def)
qed

lemma round_real_nat:
  assumes "k < 2 ^ 53"
  shows "round_real (real k) = real k"
proof (cases "k = 0")
  case True
  have "round_real 0 = 0"
    using round_real_subnormal [of 0] by (simp add: round_half_even_def)
  with True show ?thesis by simp
next
  case False
  then have k1: "1 \<le> real k" by simp
  define e where "e = exponent_of (real k)"
  have e0: "0 \<le> e"
    using exponent_of_mono [OF k1] by (simp add: e_def exponent_of_one)
  have "(2::real) powi (- 1022) \<le> 2 powi 0"
    by (rule power_int_increasing) simp_all
  with k1 have "2 powi (- 1022) \<le> real k" by simp
  then have lo: "2 powi e \<le> real k"
    unfolding e_def by (rule exponent_of_lower)
  have e52: "e \<le> 52"
  proof (rule ccontr)
    assume "\<not> e \<le> 52"
    then have "53 \<le> e" by simp
    then have "(2::real) powi 53 \<le> 2 powi e"
      by (rule power_int_increasing) simp
    with lo have "2 ^ 53 \<le> real k" by simp
    then have "(2::nat) ^ 53 \<le> k"
      by (metis of_nat_le_iff of_nat_numeral of_nat_power)
    with assms show False by simp
  qed
  define j where "j = nat (52 - e)"
  have j: "52 - e = int j" using e52 by (simp add: j_def)
  have "(2::real) powi (e - 52 + (52 - e)) = 2 powi (e - 52) * 2 powi (52 - e)"
    by (rule power_int_add) simp
  moreover have "e - 52 + (52 - e) = 0" by simp
  moreover have "(2::real) powi (52 - e) = 2 ^ j"
    unfolding j by (rule power_int_of_nat)
  ultimately have inv: "(2::real) powi (e - 52) * 2 ^ j = 1"
    by simp
  have "real k = of_int (int k * 2 ^ j) * 2 powi (e - 52)"
    using inv by (simp add: mult.assoc mult.commute)
  then have "real k = of_int (int k * 2 ^ j) * quantum \<bar>real k\<bar>"
    by (simp add: quantum_def e_def)
  then show ?thesis by (rule round_real_multiple)
qed

lemma to_number_nat:
  assumes "k < 2 ^ 53"
  shows "to_number (real k) = Fin (real k)"
proof -
  have "real k < 2 ^ 53"
    using assms by (metis of_nat_less_iff of_nat_numeral of_nat_power)
  also have "(2::real) ^ 53 \<le> 2 ^ 1024"
    by (rule power_increasing) simp_all
  finally have "real k < overflow_bound" by (simp only: overflow_bound_def)
  moreover have "- overflow_bound < real k"
    by (simp add: overflow_bound_def less_le_trans [of _ 0])
  ultimately show ?thesis
    by (simp add: to_number_def round_real_nat [OF assms] Let_def)
qed

lemma count_up:
  assumes "Suc k < 2 ^ 53"
  shows "jadd (Fin (real k)) (Fin 1) = Fin (real (Suc k))"
  using to_number_nat [OF assms] by (simp add: add.commute)

lemma month_of_year: "jmod (Fin (real k)) (Fin 12) = Fin (real (k mod 12))"
proof -
  have "real k / 12 = real_of_int (int k) / real_of_int 12" by simp
  then have "\<lfloor>real k / 12\<rfloor> = int k div 12"
    by (simp only: floor_divide_of_int_eq)
  then have "toward_zero (real k / 12) = int (k div 12)"
    by (simp add: toward_zero_def zdiv_int)
  moreover have "real k - 12 * real (k div 12) = real (k mod 12)"
    by (metis add_diff_cancel_left' mult_div_mod_eq of_nat_add of_nat_mult of_nat_numeral)
  ultimately show ?thesis by simp
qed

lemma year_end_test: "jeq (jmod (Fin (real k)) (Fin 12)) (Fin 0) = (k mod 12 = 0)"
  unfolding month_of_year by simp

lemma round_real_error:
  assumes "0 \<le> x"
  shows "\<bar>round_real x - x\<bar> \<le> quantum x / 2"
proof -
  define z where "z = x / quantum x"
  have x: "\<bar>x\<bar> = x" using assms by simp
  have "\<bar>real_of_int (round_half_even z) - z\<bar> \<le> 1 / 2"
    unfolding round_half_even_def Let_def by (auto simp: abs_le_iff)
  then have "\<bar>real_of_int (round_half_even z) - z\<bar> * quantum x \<le> 1 / 2 * quantum x"
    using quantum_pos [of x] by (simp add: mult_right_mono)
  moreover have "\<bar>real_of_int (round_half_even z) * quantum x - z * quantum x\<bar> =
      \<bar>(real_of_int (round_half_even z) - z) * quantum x\<bar>"
    by (simp only: left_diff_distrib)
  moreover have "\<bar>(real_of_int (round_half_even z) - z) * quantum x\<bar> =
      \<bar>real_of_int (round_half_even z) - z\<bar> * quantum x"
    using quantum_pos [of x] by (simp add: abs_mult)
  moreover have "z * quantum x = x"
    using quantum_pos [of x] by (simp add: z_def)
  ultimately show ?thesis by (simp add: round_real_def x z_def)
qed

lemma quantum_mono: "a \<le> b \<Longrightarrow> quantum a \<le> quantum b"
  unfolding quantum_def by (rule power_int_increasing) (simp_all add: exponent_of_mono)

lemma exponent_of_power: "- 1022 \<le> e \<Longrightarrow> exponent_of (2 powi e) = e"
proof (rule exponent_of_normal)
  show "(2::real) powi e < 2 powi (e + 1)"
    by (rule power_int_strict_increasing) simp_all
qed simp_all

lemma exponent_of_round:
  assumes "0 \<le> x"
  shows "exponent_of x \<le> exponent_of (round_real x)"
proof (cases "- 1022 < exponent_of x")
  case True
  have "2 powi (exponent_of x) \<le> round_real x"
    by (rule round_real_above_binade [OF True assms])
  from exponent_of_mono [OF this] True show ?thesis
    by (simp add: exponent_of_power)
next
  case False
  with exponent_of_ge [of x] have "exponent_of x = - 1022" by simp
  then show ?thesis by (simp add: exponent_of_ge)
qed

lemma quantum_round:
  assumes "0 \<le> x"
  shows "quantum x \<le> quantum (round_real x)"
  unfolding quantum_def
  by (rule power_int_increasing) (use exponent_of_round [OF assms] in simp_all)

lemma round_real_idem:
  assumes "0 \<le> x"
  shows "round_real (round_real x) = round_real x"
proof -
  define y where "y = round_real x"
  define n where "n = round_half_even (x / quantum x)"
  have x: "\<bar>x\<bar> = x" using assms by simp
  have y0: "0 \<le> y" unfolding y_def by (rule round_real_nonneg [OF assms])
  then have ay: "\<bar>y\<bar> = y" by simp
  have yn: "y = of_int n * quantum x"
    by (simp add: y_def n_def round_real_def x)
  have le: "y \<le> 2 powi (exponent_of x + 1)"
    unfolding y_def by (rule round_real_below_next_binade [OF assms])
  have "round_real y = y"
  proof (cases "y = 2 powi (exponent_of x + 1)")
    case True
    have e: "exponent_of y = exponent_of x + 1"
      unfolding True by (rule exponent_of_power) (use exponent_of_ge [of x] in simp)
    have "(2::real) powi (52 + (exponent_of x + 1 - 52)) =
        2 powi 52 * 2 powi (exponent_of x + 1 - 52)"
      by (rule power_int_add) simp
    moreover have "52 + (exponent_of x + 1 - 52) = exponent_of x + 1" by simp
    moreover have "quantum \<bar>y\<bar> = 2 powi (exponent_of x + 1 - 52)"
      by (simp add: quantum_def e ay)
    ultimately have "y = of_int 4503599627370496 * quantum \<bar>y\<bar>"
      using True by (simp add: add.commute)
    then show ?thesis by (rule round_real_multiple)
  next
    case False
    with le have lt: "y < 2 powi (exponent_of x + 1)" by simp
    have "exponent_of y \<le> exponent_of x"
    proof (rule ccontr)
      assume a: "\<not> exponent_of y \<le> exponent_of x"
      then have "- 1022 < exponent_of y" using exponent_of_ge [of x] by simp
      then have "2 powi (exponent_of y) \<le> y" by (rule exponent_of_above_subnormal)
      moreover have "(2::real) powi (exponent_of x + 1) \<le> 2 powi (exponent_of y)"
        by (rule power_int_increasing) (use a in simp_all)
      ultimately show False using lt by simp
    qed
    with exponent_of_round [OF assms] have "exponent_of y = exponent_of x"
      by (simp add: y_def)
    then have "quantum \<bar>y\<bar> = quantum x" by (simp add: quantum_def ay)
    with yn have "y = of_int n * quantum \<bar>y\<bar>" by simp
    then show ?thesis by (rule round_real_multiple)
  qed
  then show ?thesis by (simp only: y_def)
qed

lemma round_real_separated:
  assumes "0 \<le> B" "B \<le> A" "quantum A < A - B"
  shows "round_real B < round_real A"
proof -
  have A0: "0 \<le> A" using assms by simp
  have "round_real B \<le> B + quantum B / 2"
    using round_real_error [OF assms(1)] by linarith
  also have "\<dots> \<le> B + quantum A / 2"
    using quantum_mono [OF assms(2)] by simp
  also have "\<dots> < A - quantum A / 2"
    using assms(3) by (simp add: field_simps)
  also have "\<dots> \<le> round_real A"
    using round_real_error [OF A0] by linarith
  finally show ?thesis .
qed

section \<open>The loop, month by month\<close>

lemma interest_between_empty: "interest_between b d r m m = Fin 0"
  by (simp add: interest_between_def)

lemma interest_between_Suc:
  "lo \<le> hi \<Longrightarrow> interest_between b d r lo (Suc hi) =
     jadd (interest_between b d r lo hi) (interest_in b d r (Suc hi))"
  by (simp add: interest_between_def)

lemma year_boundary:
  assumes "Suc m mod 12 = 0"
  shows "Suc m div 12 = Suc (m div 12)" and "12 * Suc (m div 12) = Suc m"
proof -
  show d: "Suc m div 12 = Suc (m div 12)"
    using assms by (simp add: div_Suc)
  have "12 * (Suc m div 12) = Suc m"
    using assms by (metis add_cancel_right_right mult_div_mod_eq)
  then show "12 * Suc (m div 12) = Suc m"
    by (simp only: d)
qed

lemma year_interior:
  assumes "Suc m mod 12 \<noteq> 0"
  shows "Suc m div 12 = m div 12"
  using assms by (simp add: div_Suc)

lemma after_months_step:
  assumes "Suc (Suc m) < 2 ^ 53"
  shows "after_months totalMonths b d r m =
    (if jle (Fin (real (Suc m))) totalMonths then
       (if Suc m mod 12 = 0 \<and> \<not> m div 12 < 4294967295 then Some (Inl RangeError)
        else after_months totalMonths b d r (Suc m))
     else Some (Inr (map (summary_of b d r) [1..<Suc (m div 12)])))"
proof -
  have lo: "12 * (m div 12) \<le> m" by (rule times_div_less_eq_dividend)
  have acc: "jadd (interest_between b d r (12 * (m div 12)) m)
       (jmul (jadd (balance_after b d r m) d) (jdiv (jdiv r (Fin 100)) (Fin 12)))
     = interest_between b d r (12 * (m div 12)) (Suc m)"
    using interest_between_Suc [OF lo, of b d r] by (simp add: interest_in_def)
  have bal: "jadd (jadd (balance_after b d r m) d)
       (jmul (jadd (balance_after b d r m) d) (jdiv (jdiv r (Fin 100)) (Fin 12)))
     = balance_after b d r (Suc m)"
    by simp
  have next_month: "jadd (Fin (real (Suc m))) (Fin 1) = Fin (real (Suc (Suc m)))"
    by (rule count_up [OF assms])
  have "Suc (Suc (m div 12)) \<le> Suc (Suc m)" by simp
  from this assms have "Suc (Suc (m div 12)) < 2 ^ 53" by (rule le_less_trans)
  then have next_year:
    "jadd (Fin (real (Suc (m div 12)))) (Fin 1) = Fin (real (Suc (Suc (m div 12))))"
    by (rule count_up)
  have len: "length (map (summary_of b d r) [1..<Suc (m div 12)]) = m div 12"
    by simp
  show ?thesis
  proof (cases "Suc m mod 12 = 0")
    case True
    note yb = year_boundary [OF True]
    have s: "\<lparr>year = Fin (real (Suc (m div 12))), yearEndBalance = balance_after b d r (Suc m),
         yearEndInterest = interest_between b d r (12 * (m div 12)) (Suc m)\<rparr>
        = summary_of b d r (Suc (m div 12))"
      unfolding summary_of_def by (simp only: yb(2) diff_Suc_1)
    have rows: "map (summary_of b d r) [1..<Suc (m div 12)] @ [summary_of b d r (Suc (m div 12))]
        = map (summary_of b d r) [1..<Suc (Suc (m div 12))]"
      by simp
    have reset: "Fin 0 = interest_between b d r (12 * Suc (m div 12)) (Suc m)"
      by (simp only: yb(2) interest_between_empty)
    have "after_months totalMonths b d r (Suc m) =
        schedule_loop totalMonths d r (Fin (real (Suc (Suc m)))) (balance_after b d r (Suc m))
          (Fin 0) (Fin (real (Suc (Suc (m div 12)))))
          (map (summary_of b d r) [1..<Suc (Suc (m div 12))])"
      unfolding after_months_def yb(1) reset [symmetric] ..
    then show ?thesis
      apply (subst after_months_def)
      apply (subst schedule_loop.simps)
      apply (simp only: Let_def acc bal next_month next_year len year_end_test True s rows)
      apply simp
      done
  next
    case False
    note yi = year_interior [OF False]
    have "after_months totalMonths b d r (Suc m) =
        schedule_loop totalMonths d r (Fin (real (Suc (Suc m)))) (balance_after b d r (Suc m))
          (interest_between b d r (12 * (m div 12)) (Suc m)) (Fin (real (Suc (m div 12))))
          (map (summary_of b d r) [1..<Suc (m div 12)])"
      unfolding after_months_def yi ..
    then show ?thesis
      apply (subst after_months_def)
      apply (subst schedule_loop.simps)
      apply (simp only: Let_def acc bal next_month year_end_test False)
      apply simp
      done
  qed
qed

lemma after_months_run:
  assumes "m \<le> n" "n < 51539607552"
    and "\<And>k. m < k \<Longrightarrow> k \<le> n \<Longrightarrow> jle (Fin (real k)) totalMonths"
  shows "after_months totalMonths b d r m = after_months totalMonths b d r n"
  using assms(1,3)
proof (induction "n - m" arbitrary: m)
  case 0
  then show ?case by simp
next
  case (Suc j)
  then have j: "j = n - Suc m" and le: "Suc m \<le> n" by linarith+
  have "(51539607552::nat) < 2 ^ 53 - 2" by simp
  with assms(2) le have small: "Suc (Suc m) < 2 ^ 53" by linarith
  have go: "jle (Fin (real (Suc m))) totalMonths"
    by (rule Suc.prems(2)) (use le in simp_all)
  have room: "\<not> (Suc m mod 12 = 0 \<and> \<not> m div 12 < 4294967295)"
  proof
    assume a: "Suc m mod 12 = 0 \<and> \<not> m div 12 < 4294967295"
    then have "Suc m mod 12 = 0" ..
    then have "12 * Suc (m div 12) = Suc m" by (rule year_boundary)
    with le assms(2) have "12 * Suc (m div 12) < 51539607552" by simp
    with a show False by simp
  qed
  have "after_months totalMonths b d r m = after_months totalMonths b d r (Suc m)"
    by (subst after_months_step [OF small]) (simp only: go room if_True if_False)
  also have "\<dots> = after_months totalMonths b d r n"
  proof (rule Suc.hyps(1) [OF j le])
    fix k assume "Suc m < k" "k \<le> n"
    then show "jle (Fin (real k)) totalMonths" by (intro Suc.prems(2)) simp_all
  qed
  finally show ?case .
qed

lemma after_months_exit:
  assumes "n < 51539607552" "\<not> jle (Fin (real (Suc n))) totalMonths"
  shows "after_months totalMonths b d r n = Some (Inr (map (summary_of b d r) [1..<Suc (n div 12)]))"
proof -
  have "(51539607552::nat) < 2 ^ 53 - 2" by simp
  with assms(1) have "Suc (Suc n) < 2 ^ 53" by linarith
  then show ?thesis
    by (subst after_months_step) (simp_all only: assms(2) if_False)
qed

lemma after_months_full:
  assumes "jle (Fin 51539607552) totalMonths"
  shows "after_months totalMonths b d r 51539607551 = Some (Inl RangeError)"
proof -
  have "Suc (Suc 51539607551) < (2::nat) ^ 53" by simp
  from after_months_step [OF this, of totalMonths b d r] assms show ?thesis by simp
qed

section \<open>What a call returns\<close>

lemma floor_bound:
  assumes "(t::real) < 51539607552"
  shows "nat \<lfloor>t\<rfloor> < 51539607552"
proof -
  have "\<lfloor>t\<rfloor> < 51539607552" using assms by (simp add: floor_less_iff)
  then show ?thesis by arith
qed

lemma loop_result:
  "after_months totalMonths b d r 0 =
     (case month_count totalMonths of
        None \<Rightarrow> Some (Inl RangeError)
      | Some n \<Rightarrow> Some (Inr (map (summary_of b d r) [1..<Suc (n div 12)])))"
proof -
  have full: "after_months totalMonths b d r 0 = Some (Inl RangeError)"
    if all: "\<And>k. 0 < k \<Longrightarrow> k \<le> 51539607552 \<Longrightarrow> jle (Fin (real k)) totalMonths"
  proof -
    have "after_months totalMonths b d r 0 = after_months totalMonths b d r 51539607551"
      by (rule after_months_run) (simp_all add: all)
    moreover have "jle (Fin 51539607552) totalMonths"
      using all [of 51539607552] by simp
    ultimately show ?thesis by (simp only: after_months_full)
  qed
  have none: "after_months totalMonths b d r 0 = Some (Inr [])"
    if "\<not> jle (Fin 1) totalMonths"
    using after_months_exit [of 0 totalMonths b d r] that by simp
  show ?thesis
  proof (cases totalMonths)
    case NaN
    then show ?thesis using none by simp
  next
    case NegInf
    then show ?thesis using none by simp
  next
    case PosInf
    then show ?thesis using full by simp
  next
    case (Fin t)
    show ?thesis
    proof (cases "t < 51539607552")
      case True
      define n where "n = nat \<lfloor>t\<rfloor>"
      have n: "n < 51539607552" unfolding n_def by (rule floor_bound [OF True])
      have run: "jle (Fin (real k)) totalMonths" if "0 < k" "k \<le> n" for k
      proof -
        from that have "int k \<le> \<lfloor>t\<rfloor>" by (simp add: n_def)
        then have "real k \<le> t" by (simp add: le_floor_iff)
        then show ?thesis by (simp add: Fin)
      qed
      have "t < real (Suc n)"
      proof (cases "0 \<le> t")
        case True
        then have "real n = of_int \<lfloor>t\<rfloor>" by (simp add: n_def)
        then show ?thesis by simp linarith
      next
        case False
        then show ?thesis by simp
      qed
      then have stop: "\<not> jle (Fin (real (Suc n))) totalMonths"
        by (simp add: Fin)
      have "after_months totalMonths b d r 0 = after_months totalMonths b d r n"
        by (rule after_months_run) (simp_all add: n run)
      also have "\<dots> = Some (Inr (map (summary_of b d r) [1..<Suc (n div 12)]))"
        by (rule after_months_exit [OF n stop])
      finally show ?thesis using True by (simp add: Fin n_def)
    next
      case False
      have "jle (Fin (real k)) totalMonths" if "k \<le> 51539607552" for k
      proof -
        from that have "real k \<le> 51539607552"
          by (metis of_nat_le_iff of_nat_numeral)
        with False show ?thesis by (simp add: Fin)
      qed
      then show ?thesis using full False by (simp add: Fin)
    qed
  qed
qed

lemma calculateSchedule_start:
  "calculateSchedule b md r years w =
     after_months (jmul years (Fin 12)) b (if w then md else Fin 0) r 0"
  by (simp add: calculateSchedule_def after_months_def interest_between_empty)

lemma calculateSchedule_result:
  "calculateSchedule b md r years w =
     (case month_count (jmul years (Fin 12)) of
        None \<Rightarrow> Some (Inl RangeError)
      | Some n \<Rightarrow> Some (Inr (map (summary_of b (if w then md else Fin 0) r) [1..<Suc (n div 12)])))"
  by (simp only: calculateSchedule_start loop_result)

lemma returned_rows:
  "returned (calculateSchedule b md r years w) =
     map (summary_of b (if w then md else Fin 0) r) [1..<Suc (year_count years)]"
  by (simp add: calculateSchedule_result year_count_def split: option.split)

lemma whole_years:
  assumes "years \<le> 4294967295"
  shows "month_count (jmul (Fin (real years)) (Fin 12)) = Some (12 * years)"
proof -
  have "12 * years < 2 ^ 53" using assms by simp
  then have "to_number (real (12 * years)) = Fin (real (12 * years))"
    by (rule to_number_nat)
  then have j: "jmul (Fin (real years)) (Fin 12) = Fin (real (12 * years))"
    by (simp add: mult.commute)
  have lt: "real (12 * years) < 51539607552"
    using assms by simp
  have f: "nat \<lfloor>real (12 * years)\<rfloor> = 12 * years"
    by (simp only: floor_of_nat nat_int)
  show ?thesis
    unfolding j by (simp only: month_count.simps lt if_True f)
qed

lemma too_many_years:
  assumes "jle (Fin 4294967296) years"
  shows "month_count (jmul years (Fin 12)) = None"
proof (cases years)
  case (Fin t)
  with assms have t: "4294967296 \<le> t" by simp
  have "(51539607552::nat) < 2 ^ 53" by simp
  then have "to_number (real (51539607552::nat)) = Fin (real (51539607552::nat))"
    by (rule to_number_nat)
  then have "to_number 51539607552 = Fin 51539607552" by simp
  moreover have "jle (to_number 51539607552) (to_number (t * 12))"
    by (rule to_number_mono) (use t in simp_all)
  ultimately have "jle (Fin 51539607552) (jmul years (Fin 12))"
    by (simp add: Fin)
  then show ?thesis by (cases "jmul years (Fin 12)") simp_all
qed (use assms in simp_all)

lemma calculateSchedule_whole:
  assumes "years \<le> 4294967295"
  shows "calculateSchedule b md r (Fin (real years)) w =
    Some (Inr (map (summary_of b (if w then md else Fin 0) r) [1..<Suc years]))"
  by (simp only: calculateSchedule_result whole_years [OF assms] option.case) simp

lemma calculateSchedule_throws:
  assumes "jle (Fin 4294967296) years"
  shows "calculateSchedule b md r years w = Some (Inl RangeError)"
  by (simp add: calculateSchedule_result too_many_years [OF assms])

lemma year_count_whole:
  assumes "years \<le> 4294967295"
  shows "year_count (Fin (real years)) = years"
  unfolding year_count_def whole_years [OF assms] by simp

lemma schedule_loop_copy_1:
  assumes "schedule_loop totalMonths d r month ob acc yr res = Some y"
  shows "schedule_loop_part_000 totalMonths d r month ob acc yr res = Some y"
  by (rule schedule_loop.raw_induct [OF _ assms])
    (subst schedule_loop_part_000.simps, auto simp: Let_def split: if_splits)

lemma schedule_loop_copy_2:
  assumes "schedule_loop_part_000 totalMonths d r month ob acc yr res = Some y"
  shows "schedule_loop totalMonths d r month ob acc yr res = Some y"
  by (rule schedule_loop_part_000.raw_induct [OF _ assms])
    (subst schedule_loop.simps, auto simp: Let_def split: if_splits)

lemma schedule_loop_copies:
  "schedule_loop_part_000 totalMonths d r month ob acc yr res =
   schedule_loop totalMonths d r month ob acc yr res"
proof (cases "schedule_loop totalMonths d r month ob acc yr res")
  case None
  show ?thesis
  proof (cases "schedule_loop_part_000 totalMonths d r month ob acc yr res")
    case (Some y)
    from schedule_loop_copy_2 [OF this] None show ?thesis by simp
  qed (simp add: None)
next
  case (Some y)
  from schedule_loop_copy_1 [OF this] Some show ?thesis by simp
qed

section \<open>The reference simulation, month by month\<close>

lemma simulate_month_year_end:
  "12 dvd month \<Longrightarrow>
   simulate_month d r month
     \<lparr>openingBalance = ob, yearlyInterestAccumulator = acc, currentYear = yr, emitted = res\<rparr> =
     \<lparr>openingBalance = jadd (jadd ob d) (jmul (jadd ob d) (jdiv (jdiv r (Fin 100)) (Fin 12))),
      yearlyInterestAccumulator = Fin 0, currentYear = yr + 1,
      emitted = res @ [\<lparr>year = Fin (of_int yr),
        yearEndBalance = jadd (jadd ob d) (jmul (jadd ob d) (jdiv (jdiv r (Fin 100)) (Fin 12))),
        yearEndInterest = jadd acc (jmul (jadd ob d) (jdiv (jdiv r (Fin 100)) (Fin 12)))\<rparr>]\<rparr>"
  by (simp add: simulate_month_def Let_def)

lemma simulate_month_mid_year:
  "\<not> 12 dvd month \<Longrightarrow>
   simulate_month d r month
     \<lparr>openingBalance = ob, yearlyInterestAccumulator = acc, currentYear = yr, emitted = res\<rparr> =
     \<lparr>openingBalance = jadd (jadd ob d) (jmul (jadd ob d) (jdiv (jdiv r (Fin 100)) (Fin 12))),
      yearlyInterestAccumulator = jadd acc (jmul (jadd ob d) (jdiv (jdiv r (Fin 100)) (Fin 12))),
      currentYear = yr, emitted = res\<rparr>"
  by (simp add: simulate_month_def Let_def)

lemma simulate_months_state:
  "simulate_months b d r n =
     \<lparr>openingBalance = balance_after b d r n,
      yearlyInterestAccumulator = interest_between b d r (12 * (n div 12)) n,
      currentYear = int (Suc (n div 12)),
      emitted = map (summary_of b d r) [1..<Suc (n div 12)]\<rparr>"
proof (induction n)
  case 0
  show ?case by (simp add: interest_between_empty)
next
  case (Suc n)
  have lo: "12 * (n div 12) \<le> n" by (rule times_div_less_eq_dividend)
  have acc: "jadd (interest_between b d r (12 * (n div 12)) n)
       (jmul (jadd (balance_after b d r n) d) (jdiv (jdiv r (Fin 100)) (Fin 12)))
     = interest_between b d r (12 * (n div 12)) (Suc n)"
    using interest_between_Suc [OF lo, of b d r] by (simp add: interest_in_def)
  have bal: "jadd (jadd (balance_after b d r n) d)
       (jmul (jadd (balance_after b d r n) d) (jdiv (jdiv r (Fin 100)) (Fin 12)))
     = balance_after b d r (Suc n)"
    by simp
  have step: "simulate_months b d r (Suc n) = simulate_month d r (Suc n)
     \<lparr>openingBalance = balance_after b d r n,
      yearlyInterestAccumulator = interest_between b d r (12 * (n div 12)) n,
      currentYear = int (Suc (n div 12)),
      emitted = map (summary_of b d r) [1..<Suc (n div 12)]\<rparr>"
    by (simp only: simulate_months.simps Suc.IH)
  show ?case
  proof (cases "Suc n mod 12 = 0")
    case True
    note yb = year_boundary [OF True]
    have dv: "12 dvd Suc n" using True by (simp add: dvd_eq_mod_eq_0)
    have next_year: "int (Suc (n div 12)) + 1 = int (Suc (Suc (n div 12)))" by simp
    have s: "\<lparr>year = Fin (of_int (int (Suc (n div 12)))),
         yearEndBalance = balance_after b d r (Suc n),
         yearEndInterest = interest_between b d r (12 * (n div 12)) (Suc n)\<rparr>
        = summary_of b d r (Suc (n div 12))"
      unfolding summary_of_def by (simp only: yb(2) diff_Suc_1 of_int_of_nat_eq)
    have rows: "map (summary_of b d r) [1..<Suc (n div 12)] @ [summary_of b d r (Suc (n div 12))]
        = map (summary_of b d r) [1..<Suc (Suc (n div 12))]"
      by simp
    have reset: "Fin 0 = interest_between b d r (12 * Suc (n div 12)) (Suc n)"
      by (simp only: yb(2) interest_between_empty)
    show ?thesis
      unfolding step simulate_month_year_end [OF dv] acc bal next_year s rows yb(1)
        reset [symmetric] ..
  next
    case False
    note yi = year_interior [OF False]
    have dv: "\<not> 12 dvd Suc n" using False by (simp add: dvd_eq_mod_eq_0)
    show ?thesis
      unfolding step simulate_month_mid_year [OF dv] acc bal yi ..
  qed
qed


section \<open>Balances with and without the deposit, and at rate zero\<close>

lemma isNaN_jadd_left: "isNaN a \<Longrightarrow> isNaN (jadd a b)"
  by (cases a) simp_all

lemma isNaN_jadd_right: "isNaN b \<Longrightarrow> isNaN (jadd a b)"
  by (cases a; cases b) simp_all

lemma isNaN_jmul_left: "isNaN a \<Longrightarrow> isNaN (jmul a b)"
  by (cases a) simp_all

lemma to_number_below:
  assumes "0 \<le> x" "x \<le> c" "to_number c = Fin c"
  obtains y where "to_number x = Fin y" "0 \<le> y"
proof -
  from assms(3) have c: "round_real c = c" "\<not> overflow_bound \<le> c"
    by (auto simp: to_number_def Let_def split: if_splits)
  have "round_real x \<le> round_real c" by (rule round_real_mono [OF assms(1,2)])
  with c have "\<not> overflow_bound \<le> round_real x" by simp
  moreover have x0: "0 \<le> round_real x" by (rule round_real_nonneg [OF assms(1)])
  moreover have "(0::real) < overflow_bound" by (simp add: overflow_bound_def)
  ultimately have "to_number x = Fin (round_real x)"
    by (simp add: to_number_def Let_def)
  with x0 that show thesis by blast
qed

lemma to_number_fixed_le:
  assumes "0 \<le> x" "x \<le> c" "to_number c = Fin c" "to_number x = Fin y"
  shows "y \<le> c"
proof -
  from assms(3) have c: "round_real c = c"
    by (auto simp: to_number_def Let_def split: if_splits)
  from assms(4) have "round_real x = y"
    by (auto simp: to_number_def Let_def split: if_splits)
  with round_real_mono [OF assms(1,2)] c show ?thesis by simp
qed

lemma monthly_rate_amount:
  assumes "amount r"
  obtains q where "jdiv (jdiv r (Fin 100)) (Fin 12) = Fin q" "0 \<le> q"
proof -
  from assms obtain c where r: "r = Fin c" and c: "0 \<le> c" "to_number c = Fin c"
    by (cases r) simp_all
  have 1: "0 \<le> c / 100" "c / 100 \<le> c" using c(1) by simp_all
  from to_number_below [OF 1 c(2)] obtain q1 where q1: "to_number (c / 100) = Fin q1" "0 \<le> q1"
    by blast
  have q1c: "q1 \<le> c" by (rule to_number_fixed_le [OF 1 c(2) q1(1)])
  have 2: "0 \<le> q1 / 12" "q1 / 12 \<le> c" using q1(2) q1c by simp_all
  from to_number_below [OF 2 c(2)] obtain q where q: "to_number (q1 / 12) = Fin q" "0 \<le> q"
    by blast
  have "jdiv (jdiv r (Fin 100)) (Fin 12) = Fin q"
    by (simp add: r q1 q)
  with q(2) that show thesis by blast
qed

lemma deposit_dominance:
  assumes "0 \<le> b" "0 \<le> d" "jdiv (jdiv r (Fin 100)) (Fin 12) = Fin q" "0 \<le> q"
    and "\<not> isNaN (balance_after (Fin b) (Fin d) r m)"
  shows "nonneg (balance_after (Fin b) (Fin 0) r m) \<and>
         nonneg (balance_after (Fin b) (Fin d) r m) \<and>
         jle (balance_after (Fin b) (Fin 0) r m) (balance_after (Fin b) (Fin d) r m)"
  using assms(5)
proof (induction m)
  case 0
  show ?case using assms(1) by simp
next
  case (Suc m)
  let ?f = "balance_after (Fin b) (Fin 0) r m" and ?t = "balance_after (Fin b) (Fin d) r m"
  let ?sf = "jadd ?f (Fin 0)" and ?st = "jadd ?t (Fin d)"
  have next_t: "balance_after (Fin b) (Fin d) r (Suc m) = jadd ?st (jmul ?st (Fin q))"
    by (simp add: assms(3))
  have next_f: "balance_after (Fin b) (Fin 0) r (Suc m) = jadd ?sf (jmul ?sf (Fin q))"
    by (simp add: assms(3))
  have "\<not> isNaN ?t"
    using Suc.prems isNaN_jadd_left [of ?t "Fin d"] isNaN_jadd_left [of ?st "jmul ?st (Fin q)"]
    unfolding next_t by blast
  then have IH: "nonneg ?f" "nonneg ?t" "jle ?f ?t"
    using Suc.IH by simp_all
  have n0: "nonneg (Fin 0)" and nd: "nonneg (Fin d)" and le0: "jle (Fin 0) (Fin d)"
    using assms(2) by simp_all
  have sf: "nonneg ?sf" by (rule jadd_nonneg [OF IH(1) n0])
  have st: "nonneg ?st" by (rule jadd_nonneg [OF IH(2) nd])
  have s: "jle ?sf ?st" by (rule jadd_mono [OF IH(1) n0 IH(2) nd IH(3) le0])
  have it: "\<not> isNaN (jmul ?st (Fin q))"
    using Suc.prems isNaN_jadd_right [of "jmul ?st (Fin q)" ?st] unfolding next_t by blast
  from jmul_mono [OF sf st s assms(4) it]
  have i: "jle (jmul ?sf (Fin q)) (jmul ?st (Fin q))" and nif: "nonneg (jmul ?sf (Fin q))"
    by simp_all
  have nit: "nonneg (jmul ?st (Fin q))" by (rule jmul_nonneg [OF st assms(4) it])
  show ?case
    unfolding next_t next_f
    using jadd_nonneg [OF sf nif] jadd_nonneg [OF st nit] jadd_mono [OF sf nif st nit s i]
    by simp
qed


lemma zero_rate: "jdiv (jdiv (Fin 0) (Fin 100)) (Fin 12) = Fin 0"
  by (simp add: to_number_zero)

lemma zero_rate_balance:
  assumes "to_number x = Fin x"
  shows "balance_after (Fin x) (Fin 0) (Fin 0) m = Fin x"
  by (induction m) (simp_all add: zero_rate to_number_zero assms)



section \<open>One month on the reals\<close>

lemma to_number_Fin:
  assumes "to_number x = Fin y"
  shows "y = round_real x"
  using assms by (auto simp: to_number_def Let_def split: if_splits)

lemma finite_month:
  assumes "0 \<le> u" "0 \<le> d" "0 \<le> q"
    and "jadd (jadd (Fin u) (Fin d)) (jmul (jadd (Fin u) (Fin d)) (Fin q)) = Fin v"
  shows "v = month_real d q u"
proof -
  have "nonneg (to_number (u + d))"
    by (rule to_number_nonneg) (use assms in simp)
  then obtain s where s: "to_number (u + d) = Fin s" "0 \<le> s"
    using assms(4) by (cases "to_number (u + d)") (auto split: if_splits)
  have "nonneg (to_number (s * q))"
    by (rule to_number_nonneg) (use s assms in simp)
  then obtain i where i: "to_number (s * q) = Fin i" "0 \<le> i"
    using assms(4) s by (cases "to_number (s * q)") auto
  from assms(4) have "to_number (s + i) = Fin v" by (simp add: s i)
  then have "v = round_real (s + i)" by (rule to_number_Fin)
  moreover have "s = round_real (u + d)" by (rule to_number_Fin [OF s(1)])
  moreover have "i = round_real (s * q)" by (rule to_number_Fin [OF i(1)])
  ultimately show ?thesis by (simp add: month_real_def)
qed

lemma month_real_mono:
  assumes "0 \<le> x" "x \<le> y" "0 \<le> d" "d \<le> d'" "0 \<le> q"
  shows "month_real d q x \<le> month_real d' q y"
proof -
  have s: "round_real (x + d) \<le> round_real (y + d')"
    by (rule round_real_mono) (use assms in simp_all)
  have s0: "0 \<le> round_real (x + d)"
    by (rule round_real_nonneg) (use assms in simp)
  have "round_real (round_real (x + d) * q) \<le> round_real (round_real (y + d') * q)"
    by (rule round_real_mono) (use s s0 assms(5) in \<open>simp_all add: mult_right_mono\<close>)
  moreover have "0 \<le> round_real (round_real (x + d) * q)"
    by (rule round_real_nonneg) (use s0 assms(5) in simp)
  ultimately show ?thesis
    unfolding month_real_def by (intro round_real_mono) (use s s0 in simp_all)
qed

lemma month_real_nonneg:
  assumes "0 \<le> x" "0 \<le> d" "0 \<le> q"
  shows "0 \<le> month_real d q x"
proof -
  have s0: "0 \<le> round_real (x + d)"
    by (rule round_real_nonneg) (use assms in simp)
  moreover have "0 \<le> round_real (round_real (x + d) * q)"
    by (rule round_real_nonneg) (use s0 assms(3) in simp)
  ultimately show ?thesis
    unfolding month_real_def by (intro round_real_nonneg) simp
qed

lemma month_real_idem:
  assumes "0 \<le> x" "0 \<le> d" "0 \<le> q"
  shows "round_real (month_real d q x) = month_real d q x"
proof -
  have s0: "0 \<le> round_real (x + d)"
    by (rule round_real_nonneg) (use assms in simp)
  moreover have "0 \<le> round_real (round_real (x + d) * q)"
    by (rule round_real_nonneg) (use s0 assms(3) in simp)
  ultimately show ?thesis
    unfolding month_real_def by (intro round_real_idem) simp
qed

lemma month_real_ge:
  assumes "0 \<le> x" "0 \<le> d" "0 \<le> q"
  shows "round_real x \<le> month_real d q x"
proof -
  have xd: "0 \<le> x + d" using assms by simp
  have s0: "0 \<le> round_real (x + d)" by (rule round_real_nonneg [OF xd])
  have i0: "0 \<le> round_real (round_real (x + d) * q)"
    by (rule round_real_nonneg) (use s0 assms(3) in simp)
  have "round_real x \<le> round_real (x + d)"
    by (rule round_real_mono) (use assms in simp_all)
  also have "\<dots> = round_real (round_real (x + d))"
    by (rule round_real_idem [OF xd, symmetric])
  also have "\<dots> \<le> month_real d q x"
    unfolding month_real_def by (rule round_real_mono) (use s0 i0 in simp_all)
  finally show ?thesis .
qed

lemma month_real_strict:
  assumes "0 \<le> x" "0 \<le> q" "2 * quantum (month_real d q x) < d"
  shows "month_real 0 q x < month_real d q x"
proof -
  have d0: "0 \<le> d"
    using assms(3) quantum_pos [of "month_real d q x"] by simp
  have xd: "0 \<le> x + d" using assms(1) d0 by simp
  define s0 where "s0 = round_real (x + 0)"
  define s where "s = round_real (x + d)"
  define B where "B = s0 + round_real (s0 * q)"
  define A where "A = s + round_real (s * q)"
  have s0_nonneg: "0 \<le> s0" unfolding s0_def by (rule round_real_nonneg) (use assms in simp)
  have s_nonneg: "0 \<le> s" unfolding s_def by (rule round_real_nonneg [OF xd])
  have s0s: "s0 \<le> s"
    unfolding s0_def s_def by (rule round_real_mono) (use assms(1) d0 in simp_all)
  have i0: "0 \<le> round_real (s0 * q)"
    by (rule round_real_nonneg) (use s0_nonneg assms(2) in simp)
  have i: "0 \<le> round_real (s * q)"
    by (rule round_real_nonneg) (use s_nonneg assms(2) in simp)
  have ii: "round_real (s0 * q) \<le> round_real (s * q)"
    by (rule round_real_mono) (use s0_nonneg s0s assms(2) in \<open>simp_all add: mult_right_mono\<close>)
  have B0: "0 \<le> B" unfolding B_def using s0_nonneg i0 by simp
  have BA: "B \<le> A" unfolding A_def B_def using s0s ii by simp
  have A0: "0 \<le> A" using B0 BA by simp
  have M: "month_real d q x = round_real A" by (simp add: month_real_def A_def s_def)
  have M0: "month_real 0 q x = round_real B" by (simp add: month_real_def B_def s0_def)
  have "quantum (x + d) \<le> quantum s"
    unfolding s_def by (rule quantum_round [OF xd])
  also have "\<dots> \<le> quantum A"
    by (rule quantum_mono) (use i in \<open>simp add: A_def\<close>)
  finally have q1: "quantum (x + d) \<le> quantum A" .
  have q2: "quantum A \<le> quantum (month_real d q x)"
    unfolding M by (rule quantum_round [OF A0])
  have "quantum x \<le> quantum (x + d)"
    by (rule quantum_mono) (use d0 in simp)
  moreover have "\<bar>s0 - x\<bar> \<le> quantum x / 2"
    using round_real_error [OF assms(1)] by (simp add: s0_def)
  moreover have "\<bar>s - (x + d)\<bar> \<le> quantum (x + d) / 2"
    unfolding s_def by (rule round_real_error [OF xd])
  ultimately have "d - quantum (x + d) \<le> s - s0" by linarith
  moreover have "s - s0 \<le> A - B" unfolding A_def B_def using ii by simp
  ultimately have "quantum A < A - B"
    using q1 q2 assms(3) by linarith
  from round_real_separated [OF B0 BA this] show ?thesis
    by (simp only: M M0)
qed

section \<open>When the deposit shows\<close>

lemma balance_step_back:
  assumes "0 \<le> b" "0 \<le> d" "jdiv (jdiv r (Fin 100)) (Fin 12) = Fin q" "0 \<le> q"
    and "balance_after (Fin b) (Fin d) r (Suc k) = Fin v"
  obtains u where "balance_after (Fin b) (Fin d) r k = Fin u" "0 \<le> u" "v = month_real d q u"
proof -
  let ?T = "balance_after (Fin b) (Fin d) r"
  have "\<not> isNaN (?T k)"
  proof
    assume "isNaN (?T k)"
    then have "isNaN (?T (Suc k))"
      by (simp add: isNaN_jadd_left)
    then show False using assms(5) by simp
  qed
  from deposit_dominance [OF assms(1-4) this] have "nonneg (?T k)" by simp
  then obtain u where u: "?T k = Fin u" "0 \<le> u"
    using assms(5) by (cases "?T k") (auto simp: assms(3) split: if_splits)
  from assms(5) have "jadd (jadd (Fin u) (Fin d)) (jmul (jadd (Fin u) (Fin d)) (Fin q)) = Fin v"
    by (simp only: balance_after.simps u assms(3))
  from finite_month [OF u(2) assms(2,4) this] u show ?thesis by (rule that [rotated -1])
qed

lemma balance_is_double:
  assumes "0 \<le> b" "to_number b = Fin b" "0 \<le> d" "jdiv (jdiv r (Fin 100)) (Fin 12) = Fin q" "0 \<le> q"
    and "balance_after (Fin b) (Fin d) r k = Fin u"
  shows "0 \<le> u \<and> round_real u = u"
proof (cases k)
  case 0
  with assms(6) have "u = b" by simp
  moreover have "b = round_real b" by (rule to_number_Fin [OF assms(2)])
  ultimately show ?thesis using assms(1) by simp
next
  case (Suc j)
  from assms(6) have "balance_after (Fin b) (Fin d) r (Suc j) = Fin u" by (simp only: Suc)
  from balance_step_back [OF assms(1,3,4,5) this]
  obtain w where w: "0 \<le> w" "u = month_real d q w" by blast
  show ?thesis
    unfolding w(2)
    using month_real_nonneg [OF w(1) assms(3,5)] month_real_idem [OF w(1) assms(3,5)] by simp
qed

lemma balances_below_last:
  assumes "0 \<le> b" "to_number b = Fin b" "0 \<le> d" "jdiv (jdiv r (Fin 100)) (Fin 12) = Fin q" "0 \<le> q"
    and "balance_after (Fin b) (Fin d) r n = Fin t"
  shows "k \<le> n \<Longrightarrow> \<exists>u. balance_after (Fin b) (Fin d) r k = Fin u \<and> 0 \<le> u \<and> u \<le> t"
proof (induction "n - k" arbitrary: k)
  case 0
  then have "k = n" by simp
  with assms(6) balance_is_double [OF assms] show ?case by simp
next
  case (Suc j)
  then have "j = n - Suc k" "Suc k \<le> n" by simp_all
  from Suc(1) [OF this]
  obtain v where v: "balance_after (Fin b) (Fin d) r (Suc k) = Fin v" "v \<le> t" by blast
  from balance_step_back [OF assms(1,3,4,5) v(1)]
  obtain u where u: "balance_after (Fin b) (Fin d) r k = Fin u" "0 \<le> u" "v = month_real d q u"
    by blast
  have "round_real u = u" using balance_is_double [OF assms(1-5) u(1)] by simp
  then have "u \<le> v" using month_real_ge [OF u(2) assms(3,5)] by (simp add: u(3))
  with u v show ?case by simp
qed

lemma deposit_strict:
  assumes "0 \<le> b" "to_number b = Fin b" "0 \<le> d" "jdiv (jdiv r (Fin 100)) (Fin 12) = Fin q" "0 \<le> q"
    and "balance_after (Fin b) (Fin d) r n = Fin t" and "2 * quantum t < d"
    and "0 < m" "m \<le> n"
  shows "jlt (balance_after (Fin b) (Fin 0) r m) (balance_after (Fin b) (Fin d) r m)"
proof -
  let ?T = "balance_after (Fin b) (Fin d) r"
  let ?F = "balance_after (Fin b) (Fin 0) r"
  from assms(8) obtain k where m: "m = Suc k" by (cases m) simp_all
  from balances_below_last [OF assms(1-6) assms(9)]
  obtain v where v: "?T (Suc k) = Fin v" "v \<le> t" unfolding m by blast
  from balance_step_back [OF assms(1,3,4,5) v(1)]
  obtain u where u: "?T k = Fin u" "0 \<le> u" "v = month_real d q u" by blast
  have nanT: "\<not> isNaN (?T (Suc k))" "\<not> isNaN (?T k)" by (simp_all only: u v isNaN.simps not_False_eq_True)
  from deposit_dominance [OF assms(1,3,4,5) nanT(1)]
  have F1: "nonneg (?F (Suc k))" "jle (?F (Suc k)) (Fin v)" by (simp_all only: v)
  then obtain f' where f': "?F (Suc k) = Fin f'" by (cases "?F (Suc k)") simp_all
  from balance_step_back [OF assms(1) order_refl assms(4,5) f']
  obtain f where f: "?F k = Fin f" "0 \<le> f" "f' = month_real 0 q f" by blast
  from deposit_dominance [OF assms(1,3,4,5) nanT(2)]
  have "jle (Fin f) (Fin u)" by (simp only: f u)
  then have fu: "f \<le> u" by simp
  have le: "month_real d q f \<le> month_real d q u"
    by (rule month_real_mono [OF f(2) fu assms(3) order_refl assms(5)])
  then have "month_real d q f \<le> t" using v(2) u(3) by simp
  then have "quantum (month_real d q f) \<le> quantum t" by (rule quantum_mono)
  with assms(7) have "2 * quantum (month_real d q f) < d" by simp
  from month_real_strict [OF f(2) assms(5) this] le have "f' < v"
    by (simp add: f(3) u(3))
  then have "jlt (Fin f') (Fin v)" by simp
  then show ?thesis by (simp only: m f' v)
qed


section \<open>Entries of the schedule\<close>

lemma returned_length: "length (returned (calculateSchedule b md r years w)) = year_count years"
  by (simp add: returned_rows del: upt_Suc)

lemma returned_nth:
  assumes "y < year_count years"
  shows "returned (calculateSchedule b md r years w) ! y =
    summary_of b (if w then md else Fin 0) r (Suc y)"
proof -
  have "[1..<Suc (year_count years)] ! y = Suc y"
    using assms by (simp add: nth_upt del: upt_Suc)
  then show ?thesis
    using assms by (simp add: returned_rows del: upt_Suc)
qed

lemma year_count_numerals:
  "year_count (Fin 1) = 1" "year_count (Fin 2) = 2" "year_count (Fin 5) = 5"
  using year_count_whole [of 1] year_count_whole [of 2] year_count_whole [of 5] by simp_all

lemma first_year_balance:
  assumes "0 < year_count years"
  shows "yearEndBalance (returned (calculateSchedule b md r years w) ! 0) =
     balance_after b (if w then md else Fin 0) r 12"
  using returned_nth [OF assms, of b md r w] by (simp add: summary_of_def)

lemma returns_iff_rows:
  "(\<exists>rows. calculateSchedule b md r years w = Some (Inr rows)) \<longleftrightarrow>
   month_count (jmul years (Fin 12)) \<noteq> None"
  by (simp add: calculateSchedule_result split: option.splits)


lemma reference_rows:
  "reference_simulation b md r years w =
     map (summary_of b (if w then md else Fin 0) r) [1..<Suc years]"
  by (simp add: reference_simulation_def simulate_months_state del: upt_Suc)

lemma sum_monthly_interests:
  "sum_numbers (monthly_interests b d r years) = interest_between b d r 0 (12 * years)"
  by (simp add: sum_numbers_def monthly_interests_def interest_between_def del: upt_Suc)

section \<open>The validation gate rejects\<close>

lemma readInputs_rejects:
  assumes "isNaN initial \<or> isNaN monthly \<or> isNaN rate \<or> isNaN years \<or>
    jlt initial (Fin 0) \<or> jlt monthly (Fin 0) \<or> jlt rate (Fin 0) \<or>
    \<not> isInteger years \<or> jle years (Fin 0)"
  shows "\<exists>message. readInputs initial monthly rate years = Rejected message \<and>
    runCalculation initial monthly rate years p = Some (Inr (p\<lparr>errorText := message\<rparr>))"
  using assms by (auto simp: readInputs_def runCalculation_def)

section \<open>Evaluating runs\<close>

text \<open>Overflow, and some binary64 values.\<close>

lemma round_real_overflow_bound: "round_real overflow_bound = overflow_bound"
proof -
  have "round_real (2 ^ 1024) =
      of_int (round_half_even (2 ^ 1024 / 2 powi (1024 - 52))) * 2 powi (1024 - 52)"
    by (rule round_real_normal) simp_all
  also have "\<dots> = 2 ^ 1024"
    by (simp add: round_half_even_def)
  finally show ?thesis by (simp only: overflow_bound_def)
qed

lemma to_number_overflow:
  assumes "overflow_bound \<le> x"
  shows "to_number x = PosInf"
proof -
  have "(0::real) \<le> overflow_bound" by (simp add: overflow_bound_def)
  from round_real_mono [OF this assms] have "overflow_bound \<le> round_real x"
    by (simp only: round_real_overflow_bound)
  then show ?thesis by (simp add: to_number_def)
qed

lemma amount_zero: "amount (Fin 0)"
  by (simp add: to_number_zero)

lemma amount_small: "amount (Fin 1)" "amount (Fin 5)" "amount (Fin 100)"
  by (simp_all add: number_eval)

lemma amount_1000: "amount (Fin 1000)"
  by (simp add: number_eval)

lemma amount_2_53: "amount (Fin 9007199254740992)"
proof -
  have "to_number 9007199254740992 = Fin 9007199254740992"
    by (rule to_number_eval [where e = 53 and n = 4503599627370496])
      (simp_all add: round_half_even_def overflow_bound_def)
  then show ?thesis by simp
qed

lemma amount_2_1023: "amount (Fin (2 ^ 1023))"
proof -
  have "to_number (2 ^ 1023) = Fin (2 ^ 1023)"
    by (rule to_number_eval [where e = 1023 and n = "2 ^ 52"])
      (simp_all add: round_half_even_def overflow_bound_def)
  then show ?thesis by simp
qed

text \<open>One month of a run, and one more month in a sum of interests.\<close>

lemma month_eval:
  assumes "balance_after b d r m = Fin x"
    and "jdiv (jdiv r (Fin 100)) (Fin 12) = Fin q"
    and "jadd (Fin x) d = Fin s" and "jmul (Fin s) (Fin q) = Fin i"
    and "jadd (Fin s) (Fin i) = Fin c" and "n = Suc m"
  shows "balance_after b d r n = Fin c \<and> interest_in b d r n = Fin i"
  using assms by (simp add: interest_in_def)

lemma accumulate_eval:
  assumes "interest_between b d r lo m = Fin a" and "interest_in b d r n = Fin i"
    and "jadd (Fin a) (Fin i) = Fin a'" and "lo \<le> m" and "n = Suc m"
  shows "interest_between b d r lo n = Fin a'"
  using assms interest_between_Suc [of lo m b d r] by simp

text \<open>A deposit of 1 on a balance of \<open>2 ^ 53\<close> is rounded away; a deposit of \<open>2 ^ 1023\<close> on
  a balance of \<open>2 ^ 1023\<close> overflows, and at rate 0 the interest on \<open>+\<infinity>\<close> is \<open>NaN\<close>.\<close>

lemma absorbed_deposit:
  "balance_after (Fin 9007199254740992) (Fin 1) (Fin 0) m = Fin 9007199254740992"
proof (induction m)
  case 0
  show ?case by simp
next
  case (Suc m)
  have "to_number (9007199254740992 + 1) = Fin 9007199254740992"
    by (rule to_number_eval [where e = 53 and n = 4503599627370496])
      (simp_all add: round_half_even_def overflow_bound_def)
  then have "jadd (Fin 9007199254740992) (Fin 1) = Fin 9007199254740992"
    by (simp only: jadd.simps)
  moreover have "jadd (Fin 9007199254740992) (Fin 0) = Fin 9007199254740992"
    using amount_2_53 by simp
  ultimately show ?case
    by (simp add: Suc zero_rate to_number_zero del: jadd.simps)
qed

lemma overflowing_deposit:
  assumes "overflow_bound \<le> h + h"
  shows "balance_after (Fin h) (Fin h) (Fin 0) (Suc m) = NaN"
proof (induction m)
  case 0
  from assms have "to_number (h + h) = PosInf"
    by (rule to_number_overflow)
  then have "jadd (Fin h) (Fin h) = PosInf"
    by (simp only: jadd.simps)
  then show ?case
    by (simp add: zero_rate to_number_zero)
next
  case (Suc m)
  show ?case
    by (subst balance_after.simps) (simp only: Suc jadd.simps)
qed

text \<open>The first year of 1000 at 5 percent, without a deposit and with a deposit of 100.\<close>

lemma no_deposit_rate:
  "jdiv (jdiv (Fin 5) (Fin 100)) (Fin 12) = Fin (4803839602528529 / 1152921504606846976)"
proof -
  have "jdiv (Fin 5) (Fin 100) = Fin (3602879701896397 / 72057594037927936)"
    by (simp add: number_eval)
  moreover have "jdiv (Fin (3602879701896397 / 72057594037927936)) (Fin 12) =
      Fin (4803839602528529 / 1152921504606846976)"
    by (simp add: number_eval)
  ultimately show ?thesis by (simp only:)
qed

lemma no_deposit_month_1:
  "balance_after (Fin 1000) (Fin 0) (Fin 5) 1 = Fin (8832743409800533 / 8796093022208) \<and>
   interest_in (Fin 1000) (Fin 0) (Fin 5) 1 = Fin (4691249611844267 / 1125899906842624)"
  by (rule month_eval [OF balance_after.simps(1) no_deposit_rate,
        where s = "1000"])
    (simp_all add: number_eval)

lemma no_deposit_month_2:
  "balance_after (Fin 1000) (Fin 0) (Fin 5) 2 = Fin (8869546507341369 / 8796093022208) \<and>
   interest_in (Fin 1000) (Fin 0) (Fin 5) 2 = Fin (4710796485226951 / 1125899906842624)"
  by (rule month_eval [OF no_deposit_month_1 [THEN conjunct1] no_deposit_rate,
        where s = "8832743409800533 / 8796093022208"])
    (simp_all add: number_eval)

lemma no_deposit_month_3:
  "balance_after (Fin 1000) (Fin 0) (Fin 5) 3 = Fin (4453251475560979 / 4398046511104) \<and>
   interest_in (Fin 1000) (Fin 0) (Fin 5) 3 = Fin (4730424803915397 / 1125899906842624)"
  by (rule month_eval [OF no_deposit_month_2 [THEN conjunct1] no_deposit_rate,
        where s = "8869546507341369 / 8796093022208"])
    (simp_all add: number_eval)

lemma no_deposit_month_4:
  "balance_after (Fin 1000) (Fin 0) (Fin 5) 4 = Fin (4471806690042483 / 4398046511104) \<and>
   interest_in (Fin 1000) (Fin 0) (Fin 5) 4 = Fin (1187533726816261 / 281474976710656)"
  by (rule month_eval [OF no_deposit_month_3 [THEN conjunct1] no_deposit_rate,
        where s = "4453251475560979 / 4398046511104"])
    (simp_all add: number_eval)

lemma no_deposit_month_5:
  "balance_after (Fin 1000) (Fin 0) (Fin 5) 5 = Fin (1122609804479415 / 1099511627776) \<and>
   interest_in (Fin 1000) (Fin 0) (Fin 5) 5 = Fin (4769927136045315 / 1125899906842624)"
  by (rule month_eval [OF no_deposit_month_4 [THEN conjunct1] no_deposit_rate,
        where s = "4471806690042483 / 4398046511104"])
    (simp_all add: number_eval)

lemma no_deposit_month_6:
  "balance_after (Fin 1000) (Fin 0) (Fin 5) 6 = Fin (2254574690662825 / 2199023255552) \<and>
   interest_in (Fin 1000) (Fin 0) (Fin 5) 6 = Fin (74840653631961 / 17592186044416)"
  by (rule month_eval [OF no_deposit_month_5 [THEN conjunct1] no_deposit_rate,
        where s = "1122609804479415 / 1099511627776"])
    (simp_all add: number_eval)

lemma no_deposit_month_7:
  "balance_after (Fin 1000) (Fin 0) (Fin 5) 7 = Fin (17687255874015 / 17179869184) \<and>
   interest_in (Fin 1000) (Fin 0) (Fin 5) 7 = Fin (4809759340080693 / 1125899906842624)"
  by (rule month_eval [OF no_deposit_month_6 [THEN conjunct1] no_deposit_rate,
        where s = "2254574690662825 / 2199023255552"])
    (simp_all add: number_eval)

lemma no_deposit_month_8:
  "balance_after (Fin 1000) (Fin 0) (Fin 5) 8 = Fin (284175244375841 / 274877906944) \<and>
   interest_in (Fin 1000) (Fin 0) (Fin 5) 8 = Fin (1179150391601 / 274877906944)"
  by (rule month_eval [OF no_deposit_month_7 [THEN conjunct1] no_deposit_rate,
        where s = "17687255874015 / 17179869184"])
    (simp_all add: number_eval)

lemma no_deposit_month_9:
  "balance_after (Fin 1000) (Fin 0) (Fin 5) 9 = Fin (4565748926305179 / 4398046511104) \<and>
   interest_in (Fin 1000) (Fin 0) (Fin 5) 9 = Fin (1212481042670255 / 281474976710656)"
  by (rule month_eval [OF no_deposit_month_8 [THEN conjunct1] no_deposit_rate,
        where s = "284175244375841 / 274877906944"])
    (simp_all add: number_eval)

lemma no_deposit_month_10:
  "balance_after (Fin 1000) (Fin 0) (Fin 5) 10 = Fin (286548305010299 / 274877906944) \<and>
   interest_in (Fin 1000) (Fin 0) (Fin 5) 10 = Fin (2435066094029429 / 562949953421312)"
  by (rule month_eval [OF no_deposit_month_9 [THEN conjunct1] no_deposit_rate,
        where s = "4565748926305179 / 4398046511104"])
    (simp_all add: number_eval)

lemma no_deposit_month_11:
  "balance_after (Fin 1000) (Fin 0) (Fin 5) 11 = Fin (1150969025124701 / 1099511627776) \<and>
   interest_in (Fin 1000) (Fin 0) (Fin 5) 11 = Fin (4890424405509103 / 1125899906842624)"
  by (rule month_eval [OF no_deposit_month_10 [THEN conjunct1] no_deposit_rate,
        where s = "286548305010299 / 274877906944"])
    (simp_all add: number_eval)

lemma no_deposit_month_12:
  "balance_after (Fin 1000) (Fin 0) (Fin 5) 12 = Fin (577882364698027 / 549755813888) \<and>
   interest_in (Fin 1000) (Fin 0) (Fin 5) 12 = Fin (4910801173865391 / 1125899906842624)"
  by (rule month_eval [OF no_deposit_month_11 [THEN conjunct1] no_deposit_rate,
        where s = "1150969025124701 / 1099511627776"])
    (simp_all add: number_eval)

lemma no_deposit_year_1:
  "interest_between (Fin 1000) (Fin 0) (Fin 5) 0 1 = Fin (4691249611844267 / 1125899906842624)"
  by (rule accumulate_eval [OF interest_between_empty no_deposit_month_1 [THEN conjunct2]])
    (simp_all add: number_eval)

lemma no_deposit_year_2:
  "interest_between (Fin 1000) (Fin 0) (Fin 5) 0 2 = Fin (4701023048535609 / 562949953421312)"
  by (rule accumulate_eval [OF no_deposit_year_1 no_deposit_month_2 [THEN conjunct2]])
    (simp_all add: number_eval)

lemma no_deposit_year_3:
  "interest_between (Fin 1000) (Fin 0) (Fin 5) 0 3 = Fin (1766558862623327 / 140737488355328)"
  by (rule accumulate_eval [OF no_deposit_year_2 no_deposit_month_3 [THEN conjunct2]])
    (simp_all add: number_eval)

lemma no_deposit_year_4:
  "interest_between (Fin 1000) (Fin 0) (Fin 5) 0 4 = Fin (4720651452062915 / 281474976710656)"
  by (rule accumulate_eval [OF no_deposit_year_3 no_deposit_month_4 [THEN conjunct2]])
    (simp_all add: number_eval)

lemma no_deposit_year_5:
  "interest_between (Fin 1000) (Fin 0) (Fin 5) 0 5 = Fin (1478283309018561 / 70368744177664)"
  by (rule accumulate_eval [OF no_deposit_year_4 no_deposit_month_5 [THEN conjunct2]])
    (simp_all add: number_eval)

lemma no_deposit_year_6:
  "interest_between (Fin 1000) (Fin 0) (Fin 5) 0 6 = Fin (1777645923546405 / 70368744177664)"
  by (rule accumulate_eval [OF no_deposit_year_5 no_deposit_month_6 [THEN conjunct2]])
    (simp_all add: number_eval)

lemma no_deposit_year_7:
  "interest_between (Fin 1000) (Fin 0) (Fin 5) 0 7 = Fin (8313023529205793 / 281474976710656)"
  by (rule accumulate_eval [OF no_deposit_year_6 no_deposit_month_7 [THEN conjunct2]])
    (simp_all add: number_eval)

lemma no_deposit_year_8:
  "interest_between (Fin 1000) (Fin 0) (Fin 5) 0 8 = Fin (297514797818913 / 8796093022208)"
  by (rule accumulate_eval [OF no_deposit_year_7 no_deposit_month_8 [THEN conjunct2]])
    (simp_all add: number_eval)

lemma no_deposit_year_9:
  "interest_between (Fin 1000) (Fin 0) (Fin 5) 0 9 = Fin (670809660804717 / 17592186044416)"
  by (rule accumulate_eval [OF no_deposit_year_8 no_deposit_month_9 [THEN conjunct2]])
    (simp_all add: number_eval)

lemma no_deposit_year_10:
  "interest_between (Fin 1000) (Fin 0) (Fin 5) 0 10 = Fin (5975243809945093 / 140737488355328)"
  by (rule accumulate_eval [OF no_deposit_year_9 no_deposit_month_10 [THEN conjunct2]])
    (simp_all add: number_eval)

lemma no_deposit_year_11:
  "interest_between (Fin 1000) (Fin 0) (Fin 5) 0 11 = Fin (6586546860633731 / 140737488355328)"
  by (rule accumulate_eval [OF no_deposit_year_10 no_deposit_month_11 [THEN conjunct2]])
    (simp_all add: number_eval)

lemma no_deposit_year_12:
  "interest_between (Fin 1000) (Fin 0) (Fin 5) 0 12 = Fin (7200397007366905 / 140737488355328)"
  by (rule accumulate_eval [OF no_deposit_year_11 no_deposit_month_12 [THEN conjunct2]])
    (simp_all add: number_eval)

lemma deposit_rate:
  "jdiv (jdiv (Fin 5) (Fin 100)) (Fin 12) = Fin (4803839602528529 / 1152921504606846976)"
proof -
  have "jdiv (Fin 5) (Fin 100) = Fin (3602879701896397 / 72057594037927936)"
    by (simp add: number_eval)
  moreover have "jdiv (Fin (3602879701896397 / 72057594037927936)) (Fin 12) =
      Fin (4803839602528529 / 1152921504606846976)"
    by (simp add: number_eval)
  ultimately show ?thesis by (simp only:)
qed

lemma deposit_month_1:
  "balance_after (Fin 1000) (Fin 100) (Fin 5) 1 = Fin (4858008875390293 / 4398046511104) \<and>
   interest_in (Fin 1000) (Fin 100) (Fin 5) 1 = Fin (5160374573028693 / 1125899906842624)"
  by (rule month_eval [OF balance_after.simps(1) deposit_rate,
        where s = "1100"])
    (simp_all add: number_eval)

lemma deposit_month_2:
  "balance_after (Fin 1000) (Fin 100) (Fin 5) 2 = Fin (5319887749527779 / 4398046511104) \<and>
   interest_in (Fin 1000) (Fin 100) (Fin 5) 2 = Fin (706375136866759 / 140737488355328)"
  by (rule month_eval [OF deposit_month_1 [THEN conjunct1] deposit_rate,
        where s = "5297813526500693 / 4398046511104"])
    (simp_all add: number_eval)

lemma deposit_month_3:
  "balance_after (Fin 1000) (Fin 100) (Fin 5) 3 = Fin (5783691118974171 / 4398046511104) \<and>
   interest_in (Fin 1000) (Fin 100) (Fin 5) 3 = Fin (3071835947007029 / 562949953421312)"
  by (rule month_eval [OF deposit_month_2 [THEN conjunct1] deposit_rate,
        where s = "5759692400638179 / 4398046511104"])
    (simp_all add: number_eval)

lemma deposit_month_4:
  "balance_after (Fin 1000) (Fin 100) (Fin 5) 4 = Fin (6249427002459923 / 4398046511104) \<and>
   interest_in (Fin 1000) (Fin 100) (Fin 5) 4 = Fin (6638395488090209 / 1125899906842624)"
  by (rule month_eval [OF deposit_month_3 [THEN conjunct1] deposit_rate,
        where s = "6223495770084571 / 4398046511104"])
    (simp_all add: number_eval)

lemma deposit_month_5:
  "balance_after (Fin 1000) (Fin 100) (Fin 5) 5 = Fin (3358551726063433 / 2199023255552) \<and>
   interest_in (Fin 1000) (Fin 100) (Fin 5) 5 = Fin (7135180430475011 / 1125899906842624)"
  by (rule month_eval [OF deposit_month_4 [THEN conjunct1] deposit_rate,
        where s = "6689231653570323 / 4398046511104"])
    (simp_all add: number_eval)

lemma deposit_month_6:
  "balance_after (Fin 1000) (Fin 100) (Fin 5) 6 = Fin (7186728553667421 / 4398046511104) \<and>
   interest_in (Fin 1000) (Fin 100) (Fin 5) 6 = Fin (3817017655059875 / 562949953421312)"
  by (rule month_eval [OF deposit_month_5 [THEN conjunct1] deposit_rate,
        where s = "3578454051618633 / 2199023255552"])
    (simp_all add: number_eval)

lemma deposit_month_7:
  "balance_after (Fin 1000) (Fin 100) (Fin 5) 7 = Fin (7658310426464395 / 4398046511104) \<and>
   interest_in (Fin 1000) (Fin 100) (Fin 5) 7 = Fin (8134968751763009 / 1125899906842624)"
  by (rule month_eval [OF deposit_month_6 [THEN conjunct1] deposit_rate,
        where s = "7626533204777821 / 4398046511104"])
    (simp_all add: number_eval)

lemma deposit_month_8:
  "balance_after (Fin 1000) (Fin 100) (Fin 5) 8 = Fin (8131857223731357 / 4398046511104) \<and>
   interest_in (Fin 1000) (Fin 100) (Fin 5) 8 = Fin (8637989416079781 / 1125899906842624)"
  by (rule month_eval [OF deposit_month_7 [THEN conjunct1] deposit_rate,
        where s = "8098115077574795 / 4398046511104"])
    (simp_all add: number_eval)

lemma deposit_month_9:
  "balance_after (Fin 1000) (Fin 100) (Fin 5) 9 = Fin (4303688566326799 / 2199023255552) \<and>
   interest_in (Fin 1000) (Fin 100) (Fin 5) 9 = Fin (1142888249978901 / 140737488355328)"
  by (rule month_eval [OF deposit_month_8 [THEN conjunct1] deposit_rate,
        where s = "8571661874841757 / 4398046511104"])
    (simp_all add: number_eval)

lemma deposit_month_10:
  "balance_after (Fin 1000) (Fin 100) (Fin 5) 10 = Fin (4542439187264841 / 2199023255552) \<and>
   interest_in (Fin 1000) (Fin 100) (Fin 5) 10 = Fin (2412581809003733 / 281474976710656)"
  by (rule month_eval [OF deposit_month_9 [THEN conjunct1] deposit_rate,
        where s = "4523590891881999 / 2199023255552"])
    (simp_all add: number_eval)

lemma deposit_month_11:
  "balance_after (Fin 1000) (Fin 100) (Fin 5) 11 = Fin (4782184602456791 / 2199023255552) \<and>
   interest_in (Fin 1000) (Fin 100) (Fin 5) 11 = Fin (1269957736752011 / 140737488355328)"
  by (rule month_eval [OF deposit_month_10 [THEN conjunct1] deposit_rate,
        where s = "4762341512820041 / 2199023255552"])
    (simp_all add: number_eval)

lemma deposit_month_12:
  "balance_after (Fin 1000) (Fin 100) (Fin 5) 12 = Fin (1255732239219677 / 549755813888) \<and>
   interest_in (Fin 1000) (Fin 100) (Fin 5) 12 = Fin (5335559389879457 / 562949953421312)"
  by (rule month_eval [OF deposit_month_11 [THEN conjunct1] deposit_rate,
        where s = "5002086928011991 / 2199023255552"])
    (simp_all add: number_eval)

lemma first_year_no_deposit:
  "returned (calculateSchedule (Fin 1000) (Fin 100) (Fin 5) (Fin 5) False) ! 0 =
     \<lparr>year = Fin 1, yearEndBalance = Fin (577882364698027 / 549755813888),
      yearEndInterest = Fin (7200397007366905 / 140737488355328)\<rparr>"
proof -
  have "returned (calculateSchedule (Fin 1000) (Fin 100) (Fin 5) (Fin 5) False) ! 0 =
      summary_of (Fin 1000) (Fin 0) (Fin 5) (Suc 0)"
    using returned_nth [of 0 "Fin 5" "Fin 1000" "Fin 100" "Fin 5" False]
    by (simp add: year_count_numerals)
  then show ?thesis
    by (simp add: summary_of_def no_deposit_month_12 no_deposit_year_12)
qed

lemma first_year_deposit:
  "yearEndBalance (returned (calculateSchedule (Fin 1000) (Fin 100) (Fin 5) (Fin 5) True) ! 0) =
     Fin (1255732239219677 / 549755813888)"
proof -
  have "returned (calculateSchedule (Fin 1000) (Fin 100) (Fin 5) (Fin 5) True) ! 0 =
      summary_of (Fin 1000) (Fin 100) (Fin 5) (Suc 0)"
    using returned_nth [of 0 "Fin 5" "Fin 1000" "Fin 100" "Fin 5" True]
    by (simp add: year_count_numerals)
  then show ?thesis
    by (simp add: summary_of_def deposit_month_12)
qed

text \<open>Two years of 1 at 10 percent, without a deposit.\<close>

lemma two_years_rate:
  "jdiv (jdiv (Fin 10) (Fin 100)) (Fin 12) = Fin (4803839602528529 / 576460752303423488)"
proof -
  have "jdiv (Fin 10) (Fin 100) = Fin (3602879701896397 / 36028797018963968)"
    by (simp add: number_eval)
  moreover have "jdiv (Fin (3602879701896397 / 36028797018963968)) (Fin 12) =
      Fin (4803839602528529 / 576460752303423488)"
    by (simp add: number_eval)
  ultimately show ?thesis by (simp only:)
qed

lemma two_years_month_1:
  "balance_after (Fin 1) (Fin 0) (Fin 10) 1 = Fin (2270564812132625 / 2251799813685248) \<and>
   interest_in (Fin 1) (Fin 0) (Fin 10) 1 = Fin (4803839602528529 / 576460752303423488)"
  by (rule month_eval [OF balance_after.simps(1) two_years_rate,
        where s = "1"])
    (simp_all add: number_eval)

lemma two_years_month_2:
  "balance_after (Fin 1) (Fin 0) (Fin 10) 2 = Fin (4578972371134127 / 4503599627370496) \<and>
   interest_in (Fin 1) (Fin 0) (Fin 10) 2 = Fin (4843871599216267 / 576460752303423488)"
  by (rule month_eval [OF two_years_month_1 [THEN conjunct1] two_years_rate,
        where s = "2270564812132625 / 2251799813685248"])
    (simp_all add: number_eval)

lemma two_years_month_3:
  "balance_after (Fin 1) (Fin 0) (Fin 10) 3 = Fin (4617130474226911 / 4503599627370496) \<and>
   interest_in (Fin 1) (Fin 0) (Fin 10) 3 = Fin (2442118597938201 / 288230376151711744)"
  by (rule month_eval [OF two_years_month_2 [THEN conjunct1] two_years_rate,
        where s = "4578972371134127 / 4503599627370496"])
    (simp_all add: number_eval)

lemma two_years_month_4:
  "balance_after (Fin 1) (Fin 0) (Fin 10) 4 = Fin (4655606561512135 / 4503599627370496) \<and>
   interest_in (Fin 1) (Fin 0) (Fin 10) 4 = Fin (4924939172508705 / 576460752303423488)"
  by (rule month_eval [OF two_years_month_3 [THEN conjunct1] two_years_rate,
        where s = "4617130474226911 / 4503599627370496"])
    (simp_all add: number_eval)

lemma two_years_month_5:
  "balance_after (Fin 1) (Fin 0) (Fin 10) 5 = Fin (4694403282858069 / 4503599627370496) \<and>
   interest_in (Fin 1) (Fin 0) (Fin 10) 5 = Fin (4965980332279611 / 576460752303423488)"
  by (rule month_eval [OF two_years_month_4 [THEN conjunct1] two_years_rate,
        where s = "4655606561512135 / 4503599627370496"])
    (simp_all add: number_eval)

lemma two_years_month_6:
  "balance_after (Fin 1) (Fin 0) (Fin 10) 6 = Fin (1183380827553805 / 1125899906842624) \<and>
   interest_in (Fin 1) (Fin 0) (Fin 10) 6 = Fin (2503681750857637 / 288230376151711744)"
  by (rule month_eval [OF two_years_month_5 [THEN conjunct1] two_years_rate,
        where s = "4694403282858069 / 4503599627370496"])
    (simp_all add: number_eval)

lemma two_years_month_7:
  "balance_after (Fin 1) (Fin 0) (Fin 10) 7 = Fin (4772969337800347 / 4503599627370496) \<and>
   interest_in (Fin 1) (Fin 0) (Fin 10) 7 = Fin (5049091530896235 / 576460752303423488)"
  by (rule month_eval [OF two_years_month_6 [THEN conjunct1] two_years_rate,
        where s = "1183380827553805 / 1125899906842624"])
    (simp_all add: number_eval)

lemma two_years_month_8:
  "balance_after (Fin 1) (Fin 0) (Fin 10) 8 = Fin (4812744082282017 / 4503599627370496) \<and>
   interest_in (Fin 1) (Fin 0) (Fin 10) 8 = Fin (5091167293653703 / 576460752303423488)"
  by (rule month_eval [OF two_years_month_7 [THEN conjunct1] two_years_rate,
        where s = "4772969337800347 / 4503599627370496"])
    (simp_all add: number_eval)

lemma two_years_month_9:
  "balance_after (Fin 1) (Fin 0) (Fin 10) 9 = Fin (1213212570741925 / 1125899906842624) \<and>
   interest_in (Fin 1) (Fin 0) (Fin 10) 9 = Fin (5133593687767485 / 576460752303423488)"
  by (rule month_eval [OF two_years_month_8 [THEN conjunct1] two_years_rate,
        where s = "4812744082282017 / 4503599627370496"])
    (simp_all add: number_eval)

lemma two_years_month_10:
  "balance_after (Fin 1) (Fin 0) (Fin 10) 10 = Fin (4893290701992431 / 4503599627370496) \<and>
   interest_in (Fin 1) (Fin 0) (Fin 10) 10 = Fin (5176373635165547 / 576460752303423488)"
  by (rule month_eval [OF two_years_month_9 [THEN conjunct1] two_years_rate,
        where s = "1213212570741925 / 1125899906842624"])
    (simp_all add: number_eval)

lemma two_years_month_11:
  "balance_after (Fin 1) (Fin 0) (Fin 10) 11 = Fin (4934068124509035 / 4503599627370496) \<and>
   interest_in (Fin 1) (Fin 0) (Fin 10) 11 = Fin (1304877520531315 / 144115188075855872)"
  by (rule month_eval [OF two_years_month_10 [THEN conjunct1] two_years_rate,
        where s = "4893290701992431 / 4503599627370496"])
    (simp_all add: number_eval)

lemma two_years_month_12:
  "balance_after (Fin 1) (Fin 0) (Fin 10) 12 = Fin (621898169859993 / 562949953421312) \<and>
   interest_in (Fin 1) (Fin 0) (Fin 10) 12 = Fin (328937874967269 / 36028797018963968)"
  by (rule month_eval [OF two_years_month_11 [THEN conjunct1] two_years_rate,
        where s = "4934068124509035 / 4503599627370496"])
    (simp_all add: number_eval)

lemma two_years_month_13:
  "balance_after (Fin 1) (Fin 0) (Fin 10) 13 = Fin (2508322618435305 / 2251799813685248) \<and>
   interest_in (Fin 1) (Fin 0) (Fin 10) 13 = Fin (2653432191402637 / 288230376151711744)"
  by (rule month_eval [OF two_years_month_12 [THEN conjunct1] two_years_rate,
        where s = "621898169859993 / 562949953421312"])
    (simp_all add: number_eval)

lemma two_years_month_14:
  "balance_after (Fin 1) (Fin 0) (Fin 10) 14 = Fin (1264612653461133 / 1125899906842624) \<and>
   interest_in (Fin 1) (Fin 0) (Fin 10) 14 = Fin (167221507895687 / 18014398509481984)"
  by (rule month_eval [OF two_years_month_13 [THEN conjunct1] two_years_rate,
        where s = "2508322618435305 / 2251799813685248"])
    (simp_all add: number_eval)

lemma two_years_month_15:
  "balance_after (Fin 1) (Fin 0) (Fin 10) 15 = Fin (5100604368959903 / 4503599627370496) \<and>
   interest_in (Fin 1) (Fin 0) (Fin 10) 15 = Fin (5395680654767501 / 576460752303423488)"
  by (rule month_eval [OF two_years_month_14 [THEN conjunct1] two_years_rate,
        where s = "1264612653461133 / 1125899906842624"])
    (simp_all add: number_eval)

lemma two_years_month_16:
  "balance_after (Fin 1) (Fin 0) (Fin 10) 16 = Fin (2571554702683951 / 2251799813685248) \<and>
   interest_in (Fin 1) (Fin 0) (Fin 10) 16 = Fin (680080582527987 / 72057594037927936)"
  by (rule month_eval [OF two_years_month_15 [THEN conjunct1] two_years_rate,
        where s = "5100604368959903 / 4503599627370496"])
    (simp_all add: number_eval)

lemma two_years_month_17:
  "balance_after (Fin 1) (Fin 0) (Fin 10) 17 = Fin (5185968650412635 / 4503599627370496) \<and>
   interest_in (Fin 1) (Fin 0) (Fin 10) 17 = Fin (2742991682862881 / 288230376151711744)"
  by (rule month_eval [OF two_years_month_16 [THEN conjunct1] two_years_rate,
        where s = "2571554702683951 / 2251799813685248"])
    (simp_all add: number_eval)

lemma two_years_month_18:
  "balance_after (Fin 1) (Fin 0) (Fin 10) 18 = Fin (1307296263958185 / 1125899906842624) \<and>
   interest_in (Fin 1) (Fin 0) (Fin 10) 18 = Fin (5531699893773477 / 576460752303423488)"
  by (rule month_eval [OF two_years_month_17 [THEN conjunct1] two_years_rate,
        where s = "5185968650412635 / 4503599627370496"])
    (simp_all add: number_eval)

lemma two_years_month_19:
  "balance_after (Fin 1) (Fin 0) (Fin 10) 19 = Fin (659095199745585 / 562949953421312) \<and>
   interest_in (Fin 1) (Fin 0) (Fin 10) 19 = Fin (87153084263879 / 9007199254740992)"
  by (rule month_eval [OF two_years_month_18 [THEN conjunct1] two_years_rate,
        where s = "1307296263958185 / 1125899906842624"])
    (simp_all add: number_eval)

lemma two_years_month_20:
  "balance_after (Fin 1) (Fin 0) (Fin 10) 20 = Fin (5316701277947719 / 4503599627370496) \<and>
   interest_in (Fin 1) (Fin 0) (Fin 10) 20 = Fin (43939679983039 / 4503599627370496)"
  by (rule month_eval [OF two_years_month_19 [THEN conjunct1] two_years_rate,
        where s = "659095199745585 / 562949953421312"])
    (simp_all add: number_eval)

lemma two_years_month_21:
  "balance_after (Fin 1) (Fin 0) (Fin 10) 21 = Fin (5361007121930617 / 4503599627370496) \<and>
   interest_in (Fin 1) (Fin 0) (Fin 10) 21 = Fin (1417787007452725 / 144115188075855872)"
  by (rule month_eval [OF two_years_month_20 [THEN conjunct1] two_years_rate,
        where s = "5316701277947719 / 4503599627370496"])
    (simp_all add: number_eval)

lemma two_years_month_22:
  "balance_after (Fin 1) (Fin 0) (Fin 10) 22 = Fin (5405682181280039 / 4503599627370496) \<and>
   interest_in (Fin 1) (Fin 0) (Fin 10) 22 = Fin (5718407596725991 / 576460752303423488)"
  by (rule month_eval [OF two_years_month_21 [THEN conjunct1] two_years_rate,
        where s = "5361007121930617 / 4503599627370496"])
    (simp_all add: number_eval)

lemma two_years_month_23:
  "balance_after (Fin 1) (Fin 0) (Fin 10) 23 = Fin (2725364766395353 / 2251799813685248) \<and>
   interest_in (Fin 1) (Fin 0) (Fin 10) 23 = Fin (5766060993365375 / 576460752303423488)"
  by (rule month_eval [OF two_years_month_22 [THEN conjunct1] two_years_rate,
        where s = "5405682181280039 / 4503599627370496"])
    (simp_all add: number_eval)

lemma two_years_month_24:
  "balance_after (Fin 1) (Fin 0) (Fin 10) 24 = Fin (5496152278897295 / 4503599627370496) \<and>
   interest_in (Fin 1) (Fin 0) (Fin 10) 24 = Fin (1453527875410855 / 144115188075855872)"
  by (rule month_eval [OF two_years_month_23 [THEN conjunct1] two_years_rate,
        where s = "2725364766395353 / 2251799813685248"])
    (simp_all add: number_eval)

lemma two_years_first_1:
  "interest_between (Fin 1) (Fin 0) (Fin 10) 0 1 = Fin (4803839602528529 / 576460752303423488)"
  by (rule accumulate_eval [OF interest_between_empty two_years_month_1 [THEN conjunct2]])
    (simp_all add: number_eval)

lemma two_years_first_2:
  "interest_between (Fin 1) (Fin 0) (Fin 10) 0 2 = Fin (2411927800436199 / 144115188075855872)"
  by (rule accumulate_eval [OF two_years_first_1 two_years_month_2 [THEN conjunct2]])
    (simp_all add: number_eval)

lemma two_years_first_3:
  "interest_between (Fin 1) (Fin 0) (Fin 10) 0 3 = Fin (7265974198810599 / 288230376151711744)"
  by (rule accumulate_eval [OF two_years_first_2 two_years_month_3 [THEN conjunct2]])
    (simp_all add: number_eval)

lemma two_years_first_4:
  "interest_between (Fin 1) (Fin 0) (Fin 10) 0 4 = Fin (1216055473133119 / 36028797018963968)"
  by (rule accumulate_eval [OF two_years_first_3 two_years_month_4 [THEN conjunct2]])
    (simp_all add: number_eval)

lemma two_years_first_5:
  "interest_between (Fin 1) (Fin 0) (Fin 10) 0 5 = Fin (6105716975602379 / 144115188075855872)"
  by (rule accumulate_eval [OF two_years_first_4 two_years_month_5 [THEN conjunct2]])
    (simp_all add: number_eval)

lemma two_years_first_6:
  "interest_between (Fin 1) (Fin 0) (Fin 10) 0 6 = Fin (3678778925515599 / 72057594037927936)"
  by (rule accumulate_eval [OF two_years_first_5 two_years_month_6 [THEN conjunct2]])
    (simp_all add: number_eval)

lemma two_years_first_7:
  "interest_between (Fin 1) (Fin 0) (Fin 10) 0 7 = Fin (8619830733755257 / 144115188075855872)"
  by (rule accumulate_eval [OF two_years_first_6 two_years_month_7 [THEN conjunct2]])
    (simp_all add: number_eval)

lemma two_years_first_8:
  "interest_between (Fin 1) (Fin 0) (Fin 10) 0 8 = Fin (4946311278584341 / 72057594037927936)"
  by (rule accumulate_eval [OF two_years_first_7 two_years_month_8 [THEN conjunct2]])
    (simp_all add: number_eval)

lemma two_years_first_9:
  "interest_between (Fin 1) (Fin 0) (Fin 10) 0 9 = Fin (5588010489555277 / 72057594037927936)"
  by (rule accumulate_eval [OF two_years_first_8 two_years_month_9 [THEN conjunct2]])
    (simp_all add: number_eval)

lemma two_years_first_10:
  "interest_between (Fin 1) (Fin 0) (Fin 10) 0 10 = Fin (3117528596975485 / 36028797018963968)"
  by (rule accumulate_eval [OF two_years_first_9 two_years_month_10 [THEN conjunct2]])
    (simp_all add: number_eval)

lemma two_years_first_11:
  "interest_between (Fin 1) (Fin 0) (Fin 10) 0 11 = Fin (1721873988554157 / 18014398509481984)"
  by (rule accumulate_eval [OF two_years_first_10 two_years_month_11 [THEN conjunct2]])
    (simp_all add: number_eval)

lemma two_years_first_12:
  "interest_between (Fin 1) (Fin 0) (Fin 10) 0 12 = Fin (3772685852075583 / 36028797018963968)"
  by (rule accumulate_eval [OF two_years_first_11 two_years_month_12 [THEN conjunct2]])
    (simp_all add: number_eval)

lemma two_years_second_13:
  "interest_between (Fin 1) (Fin 0) (Fin 10) 12 13 = Fin (2653432191402637 / 288230376151711744)"
  by (rule accumulate_eval [OF interest_between_empty two_years_month_13 [THEN conjunct2]])
    (simp_all add: number_eval)

lemma two_years_second_14:
  "interest_between (Fin 1) (Fin 0) (Fin 10) 12 14 = Fin (5328976317733629 / 288230376151711744)"
  by (rule accumulate_eval [OF two_years_second_13 two_years_month_14 [THEN conjunct2]])
    (simp_all add: number_eval)

lemma two_years_second_15:
  "interest_between (Fin 1) (Fin 0) (Fin 10) 12 15 = Fin (2006704161279345 / 72057594037927936)"
  by (rule accumulate_eval [OF two_years_second_14 two_years_month_15 [THEN conjunct2]])
    (simp_all add: number_eval)

lemma two_years_second_16:
  "interest_between (Fin 1) (Fin 0) (Fin 10) 12 16 = Fin (671696185951833 / 18014398509481984)"
  by (rule accumulate_eval [OF two_years_second_15 two_years_month_16 [THEN conjunct2]])
    (simp_all add: number_eval)

lemma two_years_second_17:
  "interest_between (Fin 1) (Fin 0) (Fin 10) 12 17 = Fin (843133166130763 / 18014398509481984)"
  by (rule accumulate_eval [OF two_years_second_16 two_years_month_17 [THEN conjunct2]])
    (simp_all add: number_eval)

lemma two_years_second_18:
  "interest_between (Fin 1) (Fin 0) (Fin 10) 12 18 = Fin (8127990302489473 / 144115188075855872)"
  by (rule accumulate_eval [OF two_years_second_17 two_years_month_18 [THEN conjunct2]])
    (simp_all add: number_eval)

lemma two_years_second_19:
  "interest_between (Fin 1) (Fin 0) (Fin 10) 12 19 = Fin (595152478169471 / 9007199254740992)"
  by (rule accumulate_eval [OF two_years_second_18 two_years_month_19 [THEN conjunct2]])
    (simp_all add: number_eval)

lemma two_years_second_20:
  "interest_between (Fin 1) (Fin 0) (Fin 10) 12 20 = Fin (683031838135549 / 9007199254740992)"
  by (rule accumulate_eval [OF two_years_second_19 two_years_month_20 [THEN conjunct2]])
    (simp_all add: number_eval)

lemma two_years_second_21:
  "interest_between (Fin 1) (Fin 0) (Fin 10) 12 21 = Fin (3086574104405377 / 36028797018963968)"
  by (rule accumulate_eval [OF two_years_second_20 two_years_month_21 [THEN conjunct2]])
    (simp_all add: number_eval)

lemma two_years_second_22:
  "interest_between (Fin 1) (Fin 0) (Fin 10) 12 22 = Fin (6887949158401503 / 72057594037927936)"
  by (rule accumulate_eval [OF two_years_second_21 two_years_month_22 [THEN conjunct2]])
    (simp_all add: number_eval)

lemma two_years_second_23:
  "interest_between (Fin 1) (Fin 0) (Fin 10) 12 23 = Fin (7608706782572175 / 72057594037927936)"
  by (rule accumulate_eval [OF two_years_second_22 two_years_month_23 [THEN conjunct2]])
    (simp_all add: number_eval)

lemma two_years_second_24:
  "interest_between (Fin 1) (Fin 0) (Fin 10) 12 24 = Fin (4167735360138801 / 36028797018963968)"
  by (rule accumulate_eval [OF two_years_second_23 two_years_month_24 [THEN conjunct2]])
    (simp_all add: number_eval)

lemma two_years_total_1:
  "interest_between (Fin 1) (Fin 0) (Fin 10) 0 1 = Fin (4803839602528529 / 576460752303423488)"
  by (rule accumulate_eval [OF interest_between_empty two_years_month_1 [THEN conjunct2]])
    (simp_all add: number_eval)

lemma two_years_total_2:
  "interest_between (Fin 1) (Fin 0) (Fin 10) 0 2 = Fin (2411927800436199 / 144115188075855872)"
  by (rule accumulate_eval [OF two_years_total_1 two_years_month_2 [THEN conjunct2]])
    (simp_all add: number_eval)

lemma two_years_total_3:
  "interest_between (Fin 1) (Fin 0) (Fin 10) 0 3 = Fin (7265974198810599 / 288230376151711744)"
  by (rule accumulate_eval [OF two_years_total_2 two_years_month_3 [THEN conjunct2]])
    (simp_all add: number_eval)

lemma two_years_total_4:
  "interest_between (Fin 1) (Fin 0) (Fin 10) 0 4 = Fin (1216055473133119 / 36028797018963968)"
  by (rule accumulate_eval [OF two_years_total_3 two_years_month_4 [THEN conjunct2]])
    (simp_all add: number_eval)

lemma two_years_total_5:
  "interest_between (Fin 1) (Fin 0) (Fin 10) 0 5 = Fin (6105716975602379 / 144115188075855872)"
  by (rule accumulate_eval [OF two_years_total_4 two_years_month_5 [THEN conjunct2]])
    (simp_all add: number_eval)

lemma two_years_total_6:
  "interest_between (Fin 1) (Fin 0) (Fin 10) 0 6 = Fin (3678778925515599 / 72057594037927936)"
  by (rule accumulate_eval [OF two_years_total_5 two_years_month_6 [THEN conjunct2]])
    (simp_all add: number_eval)

lemma two_years_total_7:
  "interest_between (Fin 1) (Fin 0) (Fin 10) 0 7 = Fin (8619830733755257 / 144115188075855872)"
  by (rule accumulate_eval [OF two_years_total_6 two_years_month_7 [THEN conjunct2]])
    (simp_all add: number_eval)

lemma two_years_total_8:
  "interest_between (Fin 1) (Fin 0) (Fin 10) 0 8 = Fin (4946311278584341 / 72057594037927936)"
  by (rule accumulate_eval [OF two_years_total_7 two_years_month_8 [THEN conjunct2]])
    (simp_all add: number_eval)

lemma two_years_total_9:
  "interest_between (Fin 1) (Fin 0) (Fin 10) 0 9 = Fin (5588010489555277 / 72057594037927936)"
  by (rule accumulate_eval [OF two_years_total_8 two_years_month_9 [THEN conjunct2]])
    (simp_all add: number_eval)

lemma two_years_total_10:
  "interest_between (Fin 1) (Fin 0) (Fin 10) 0 10 = Fin (3117528596975485 / 36028797018963968)"
  by (rule accumulate_eval [OF two_years_total_9 two_years_month_10 [THEN conjunct2]])
    (simp_all add: number_eval)

lemma two_years_total_11:
  "interest_between (Fin 1) (Fin 0) (Fin 10) 0 11 = Fin (1721873988554157 / 18014398509481984)"
  by (rule accumulate_eval [OF two_years_total_10 two_years_month_11 [THEN conjunct2]])
    (simp_all add: number_eval)

lemma two_years_total_12:
  "interest_between (Fin 1) (Fin 0) (Fin 10) 0 12 = Fin (3772685852075583 / 36028797018963968)"
  by (rule accumulate_eval [OF two_years_total_11 two_years_month_12 [THEN conjunct2]])
    (simp_all add: number_eval)

lemma two_years_total_13:
  "interest_between (Fin 1) (Fin 0) (Fin 10) 0 13 = Fin (8208729752001825 / 72057594037927936)"
  by (rule accumulate_eval [OF two_years_total_12 two_years_month_13 [THEN conjunct2]])
    (simp_all add: number_eval)

lemma two_years_total_14:
  "interest_between (Fin 1) (Fin 0) (Fin 10) 0 14 = Fin (8877615783584573 / 72057594037927936)"
  by (rule accumulate_eval [OF two_years_total_13 two_years_month_14 [THEN conjunct2]])
    (simp_all add: number_eval)

lemma two_years_total_15:
  "interest_between (Fin 1) (Fin 0) (Fin 10) 0 15 = Fin (4776037932715255 / 36028797018963968)"
  by (rule accumulate_eval [OF two_years_total_14 two_years_month_15 [THEN conjunct2]])
    (simp_all add: number_eval)

lemma two_years_total_16:
  "interest_between (Fin 1) (Fin 0) (Fin 10) 0 16 = Fin (319754888998703 / 2251799813685248)"
  by (rule accumulate_eval [OF two_years_total_15 two_years_month_16 [THEN conjunct2]])
    (simp_all add: number_eval)

lemma two_years_total_17:
  "interest_between (Fin 1) (Fin 0) (Fin 10) 0 17 = Fin (1364738046084277 / 9007199254740992)"
  by (rule accumulate_eval [OF two_years_total_16 two_years_month_17 [THEN conjunct2]])
    (simp_all add: number_eval)

lemma two_years_total_18:
  "interest_between (Fin 1) (Fin 0) (Fin 10) 0 18 = Fin (2902341713848975 / 18014398509481984)"
  by (rule accumulate_eval [OF two_years_total_17 two_years_month_18 [THEN conjunct2]])
    (simp_all add: number_eval)

lemma two_years_total_19:
  "interest_between (Fin 1) (Fin 0) (Fin 10) 0 19 = Fin (3076647882376733 / 18014398509481984)"
  by (rule accumulate_eval [OF two_years_total_18 two_years_month_19 [THEN conjunct2]])
    (simp_all add: number_eval)

lemma two_years_total_20:
  "interest_between (Fin 1) (Fin 0) (Fin 10) 0 20 = Fin (3252406602308889 / 18014398509481984)"
  by (rule accumulate_eval [OF two_years_total_19 two_years_month_20 [THEN conjunct2]])
    (simp_all add: number_eval)

lemma two_years_total_21:
  "interest_between (Fin 1) (Fin 0) (Fin 10) 0 21 = Fin (6859259956480959 / 36028797018963968)"
  by (rule accumulate_eval [OF two_years_total_20 two_years_month_21 [THEN conjunct2]])
    (simp_all add: number_eval)

lemma two_years_total_22:
  "interest_between (Fin 1) (Fin 0) (Fin 10) 0 22 = Fin (7216660431276333 / 36028797018963968)"
  by (rule accumulate_eval [OF two_years_total_21 two_years_month_22 [THEN conjunct2]])
    (simp_all add: number_eval)

lemma two_years_total_23:
  "interest_between (Fin 1) (Fin 0) (Fin 10) 0 23 = Fin (7577039243361669 / 36028797018963968)"
  by (rule accumulate_eval [OF two_years_total_22 two_years_month_23 [THEN conjunct2]])
    (simp_all add: number_eval)

lemma two_years_total_24:
  "interest_between (Fin 1) (Fin 0) (Fin 10) 0 24 = Fin (7940421212214383 / 36028797018963968)"
  by (rule accumulate_eval [OF two_years_total_23 two_years_month_24 [THEN conjunct2]])
    (simp_all add: number_eval)

lemmas two_years_interests =
  two_years_month_1 [THEN conjunct2] two_years_month_2 [THEN conjunct2] two_years_month_3 [THEN conjunct2]
  two_years_month_4 [THEN conjunct2] two_years_month_5 [THEN conjunct2] two_years_month_6 [THEN conjunct2]
  two_years_month_7 [THEN conjunct2] two_years_month_8 [THEN conjunct2] two_years_month_9 [THEN conjunct2]
  two_years_month_10 [THEN conjunct2] two_years_month_11 [THEN conjunct2] two_years_month_12 [THEN conjunct2]
  two_years_month_13 [THEN conjunct2] two_years_month_14 [THEN conjunct2] two_years_month_15 [THEN conjunct2]
  two_years_month_16 [THEN conjunct2] two_years_month_17 [THEN conjunct2] two_years_month_18 [THEN conjunct2]
  two_years_month_19 [THEN conjunct2] two_years_month_20 [THEN conjunct2] two_years_month_21 [THEN conjunct2]
  two_years_month_22 [THEN conjunct2] two_years_month_23 [THEN conjunct2] two_years_month_24 [THEN conjunct2]

lemma two_years_schedule:
  "map yearEndInterest (returned (calculateSchedule (Fin 1) (Fin 0) (Fin 10) (Fin 2) False)) =
     [Fin (3772685852075583 / 36028797018963968), Fin (4167735360138801 / 36028797018963968)]"
proof -
  have "[1..<Suc 2] = [1, 2]" by (simp add: upt_rec)
  then show ?thesis
    by (simp add: returned_rows year_count_numerals summary_of_def two_years_first_12
        two_years_second_24 del: upt_Suc)
qed

lemma two_years_months:
  "monthly_interests (Fin 1) (Fin 0) (Fin 10) 2 = map Fin
      [4803839602528529 / 576460752303423488, 4843871599216267 / 576460752303423488,
      2442118597938201 / 288230376151711744,
      4924939172508705 / 576460752303423488,
      4965980332279611 / 576460752303423488,
      2503681750857637 / 288230376151711744,
      5049091530896235 / 576460752303423488,
      5091167293653703 / 576460752303423488,
      5133593687767485 / 576460752303423488,
      5176373635165547 / 576460752303423488,
      1304877520531315 / 144115188075855872,
      328937874967269 / 36028797018963968,
      2653432191402637 / 288230376151711744,
      167221507895687 / 18014398509481984,
      5395680654767501 / 576460752303423488,
      680080582527987 / 72057594037927936,
      2742991682862881 / 288230376151711744,
      5531699893773477 / 576460752303423488, 87153084263879 / 9007199254740992,
      43939679983039 / 4503599627370496, 1417787007452725 / 144115188075855872,
      5718407596725991 / 576460752303423488,
      5766060993365375 / 576460752303423488,
      1453527875410855 / 144115188075855872]"
proof -
  have "[1..<Suc (12 * 2)] = [1, 2, 3, 4, 5, 6, 7, 8, 9, 10, 11, 12, 13, 14, 15, 16, 17, 18,
      19, 20, 21, 22, 23, 24]"
    by (simp add: upt_rec)
  moreover have "interest_in (Fin 1) (Fin 0) (Fin 10) (Suc 0) =
      Fin (4803839602528529 / 576460752303423488)"
    using two_years_month_1 by simp
  ultimately show ?thesis
    by (simp add: monthly_interests_def two_years_interests del: upt_Suc)
qed


section \<open>The month counter at \<open>2 ^ 53\<close>\<close>

text \<open>
  At \<open>2 ^ 53\<close> the counter stops growing: \<^verbatim>\<open>month++\<close> leaves it as it is, and it is not a
  multiple of 12. A loop that were in this state, with \<^verbatim>\<open>totalMonths\<close> at least as large,
  would run forever. A call does not get there: the array is full at month \<open>12 * 2 ^ 32\<close>.
\<close>

lemma counter_stops_growing:
  "jadd (Fin 9007199254740992) (Fin 1) = Fin 9007199254740992"
  "jmod (Fin 9007199254740992) (Fin 12) = Fin 8"
proof -
  have "to_number (9007199254740992 + 1) = Fin 9007199254740992"
    by (rule to_number_eval [where e = 53 and n = 4503599627370496])
      (simp_all add: round_half_even_def overflow_bound_def)
  then show "jadd (Fin 9007199254740992) (Fin 1) = Fin 9007199254740992"
    by (simp only: jadd.simps)
  have "toward_zero (9007199254740992 / 12) = 750599937895082"
    by (simp add: toward_zero_def)
  then show "jmod (Fin 9007199254740992) (Fin 12) = Fin 8"
    by simp
qed

lemma loop_never_leaves_2_53:
  assumes "schedule_loop totalMonths d r month ob acc yr res = Some v"
  shows "\<not> (month = Fin 9007199254740992 \<and> jle (Fin 9007199254740992) totalMonths)"
  by (rule schedule_loop.raw_induct [OF _ assms])
    (auto simp: Let_def counter_stops_growing simp del: jadd.simps jmod.simps split: if_splits)

lemma loop_runs_forever_from_2_53:
  assumes "jle (Fin 9007199254740992) totalMonths"
  shows "schedule_loop totalMonths d r (Fin 9007199254740992) ob acc yr res = None"
proof (cases "schedule_loop totalMonths d r (Fin 9007199254740992) ob acc yr res")
  case (Some v)
  from loop_never_leaves_2_53 [OF this] assms show ?thesis by simp
qed simp

section \<open>Claims about the core calculation\<close>

text \<open>
  C1 as stated fails. 4294967296 is a positive integer, and 1000, 100 and 5 are amounts
  the precondition allows; the reference simulation of section 4 of the specification
  emits 4294967296 summaries for them, but in \<open>calculateSchedule\<close> the push of year
  4294967296 finds the array full and throws, so the call returns nothing.
\<close>

theorem refinement_counterexample:
  "amount (Fin 1000) \<and> amount (Fin 100) \<and> amount (Fin 5) \<and>
   isInteger (Fin 4294967296) \<and> jlt (Fin 0) (Fin 4294967296) \<and>
   calculateSchedule (Fin 1000) (Fin 100) (Fin 5) (Fin 4294967296) True =
     Some (Inl RangeError) \<and>
   length (reference_simulation (Fin 1000) (Fin 100) (Fin 5) 4294967296 True) = 4294967296 \<and>
   calculateSchedule (Fin 1000) (Fin 100) (Fin 5) (Fin 4294967296) True \<noteq>
     Some (Inr (reference_simulation (Fin 1000) (Fin 100) (Fin 5) 4294967296 True))"
proof -
  have "jle (Fin 4294967296) (Fin 4294967296)" by simp
  then have t: "calculateSchedule (Fin 1000) (Fin 100) (Fin 5) (Fin 4294967296) True =
      Some (Inl RangeError)"
    by (rule calculateSchedule_throws)
  have l: "length (reference_simulation (Fin 1000) (Fin 100) (Fin 5) 4294967296 True) =
      4294967296"
    by (simp add: reference_rows del: upt_Suc)
  have "isInteger (Fin 4294967296)" "jlt (Fin 0) (Fin 4294967296)" by simp_all
  with amount_1000 amount_small t l show ?thesis by simp
qed

text \<open>
  C1, amended. For every whole number of years up to 4294967295, and for every initial
  balance, monthly deposit, rate and flag, \<open>calculateSchedule\<close> returns, and returns what the
  month-by-month reference simulation of section 4 of the specification emits: the deposit
  is \<open>monthlyDeposit\<close> when \<open>applyDeposit\<close> holds and 0 otherwise; each of the \<open>years * 12\<close>
  months computes the interest on the opening balance plus the deposit, adds it to the
  yearly accumulator, closes with opening balance plus deposit plus interest, emits a
  summary and resets the accumulator at every month that is a multiple of 12, and carries
  the closing balance over.
\<close>

theorem calculateSchedule_refines_reference:
  assumes "years \<le> 4294967295"
  shows "calculateSchedule initialBalance monthlyDeposit annualRatePercent (Fin (real years))
      applyDeposit =
    Some (Inr (reference_simulation initialBalance monthlyDeposit annualRatePercent years
      applyDeposit))"
  by (simp only: calculateSchedule_whole [OF assms] reference_rows)

theorem calculateSchedule_refines_reference_witness:
  "(5::nat) \<le> 4294967295 \<and>
   calculateSchedule (Fin 1000) (Fin 100) (Fin 5) (Fin 5) True =
     Some (Inr (reference_simulation (Fin 1000) (Fin 100) (Fin 5) 5 True))"
  using calculateSchedule_refines_reference [of 5 "Fin 1000" "Fin 100" "Fin 5" True] by simp

text \<open>
  C2, at an input where the gate lets a value through that is not finite: with
  \<open>+\<infinity>\<close> as the initial investment (\<^verbatim>\<open>Number("Infinity")\<close>), \<open>readInputs\<close> answers
  \<^verbatim>\<open>ok: true\<close>, since it tests \<^verbatim>\<open>Number.isNaN\<close> where \<^verbatim>\<open>isValidInputs\<close> tests
  \<^verbatim>\<open>Number.isFinite\<close>, and \<open>runCalculation\<close> calls the core with it twice and renders the
  five rows of each call.
\<close>

theorem readInputs_accepts_infinity:
  "\<not> isFinite PosInf \<and>
   readInputs PosInf (Fin 100) (Fin 5) (Fin 5) = Parsed PosInf (Fin 100) (Fin 5) (Fin 5) \<and>
   (\<exists>noDep dep.
      calculateSchedule PosInf (Fin 100) (Fin 5) (Fin 5) False = Some (Inr noDep) \<and>
      calculateSchedule PosInf (Fin 100) (Fin 5) (Fin 5) True = Some (Inr dep) \<and>
      length noDep = 5 \<and> length dep = 5 \<and>
      runCalculation PosInf (Fin 100) (Fin 5) (Fin 5) p =
        Some (Inr (p\<lparr>errorText := [], noDepBody := noDep, depBody := dep\<rparr>)))"
proof -
  have r: "readInputs PosInf (Fin 100) (Fin 5) (Fin 5) = Parsed PosInf (Fin 100) (Fin 5) (Fin 5)"
    by (simp add: readInputs_def)
  have c: "calculateSchedule PosInf (Fin 100) (Fin 5) (Fin 5) w =
      Some (Inr (map (summary_of PosInf (if w then Fin 100 else Fin 0) (Fin 5)) [1..<Suc 5]))"
    for w
    using calculateSchedule_whole [of 5 PosInf "Fin 100" "Fin 5" w] by simp
  have "runCalculation PosInf (Fin 100) (Fin 5) (Fin 5) p =
      Some (Inr (p\<lparr>errorText := [],
        noDepBody := map (summary_of PosInf (Fin 0) (Fin 5)) [1..<Suc 5],
        depBody := map (summary_of PosInf (Fin 100) (Fin 5)) [1..<Suc 5]\<rparr>))"
    by (simp add: runCalculation_def r c del: upt_Suc)
  moreover have "length (map (summary_of PosInf d (Fin 5)) [1..<Suc 5]) = 5" for d
    by (simp del: upt_Suc)
  ultimately show ?thesis
    using r c [of False] c [of True] by (simp del: upt_Suc)
qed

theorem readInputs_accepts_infinity_witness:
  "\<not> isNaN PosInf \<and> \<not> jlt PosInf (Fin 0) \<and> isInteger (Fin 5) \<and> \<not> jle (Fin 5) (Fin 0) \<and>
   readInputs PosInf (Fin 100) (Fin 5) (Fin 5) = Parsed PosInf (Fin 100) (Fin 5) (Fin 5)"
  using readInputs_accepts_infinity by simp

text \<open>
  C3 as stated fails. For 4294967296 years, a positive integer, no sequence is returned:
  the call throws before its last push, so there is no sequence of length \<open>years\<close>.
\<close>

theorem years_counterexample:
  "amount (Fin 1000) \<and> amount (Fin 0) \<and> amount (Fin 5) \<and>
   isInteger (Fin 4294967296) \<and> jlt (Fin 0) (Fin 4294967296) \<and>
   calculateSchedule (Fin 1000) (Fin 0) (Fin 5) (Fin 4294967296) False =
     Some (Inl RangeError) \<and>
   length (returned (calculateSchedule (Fin 1000) (Fin 0) (Fin 5) (Fin 4294967296) False)) \<noteq>
     4294967296"
proof -
  have "jle (Fin 4294967296) (Fin 4294967296)" by simp
  then have t: "calculateSchedule (Fin 1000) (Fin 0) (Fin 5) (Fin 4294967296) False =
      Some (Inl RangeError)"
    by (rule calculateSchedule_throws)
  have "isInteger (Fin 4294967296)" "jlt (Fin 0) (Fin 4294967296)" by simp_all
  with amount_1000 amount_zero amount_small(2) t show ?thesis by simp
qed

text \<open>
  C3, amended. For every whole number of years up to 4294967295 the call returns a
  sequence of exactly \<open>years\<close> entries, and their \<open>year\<close> fields are the numbers
  \<open>1, 2, \<dots>, years\<close> in this order. For \<open>years = 1\<close> this is the one summary of year 1.
\<close>

theorem calculateSchedule_years:
  assumes "years \<le> 4294967295"
  shows "\<exists>rows. calculateSchedule b md r (Fin (real years)) w = Some (Inr rows) \<and>
    length rows = years \<and>
    map year rows = map (\<lambda>y. Fin (real y)) [1..<Suc years]"
  by (simp add: calculateSchedule_whole [OF assms] summary_of_def comp_def del: upt_Suc)

theorem calculateSchedule_years_witness:
  "(1::nat) \<le> 4294967295 \<and>
   (\<exists>rows. calculateSchedule (Fin 1000) (Fin 100) (Fin 5) (Fin 1) True = Some (Inr rows) \<and>
      length rows = 1 \<and> map year rows = [Fin 1])"
  using calculateSchedule_years [of 1 "Fin 1000" "Fin 100" "Fin 5" True] by simp

text \<open>
  C4 as stated fails in binary64 arithmetic. For 1 at 10 percent over 2 years without a
  deposit, the sum of the two \<open>yearEndInterest\<close> fields is not the sum of the 24 monthly
  interests, neither when both are added up as numbers nor as the reals they denote.
\<close>

theorem interest_sums_counterexample:
  "sum_numbers (map yearEndInterest
       (returned (calculateSchedule (Fin 1) (Fin 0) (Fin 10) (Fin 2) False))) \<noteq>
     sum_numbers (monthly_interests (Fin 1) (Fin 0) (Fin 10) 2) \<and>
   exact_sum (map yearEndInterest
       (returned (calculateSchedule (Fin 1) (Fin 0) (Fin 10) (Fin 2) False))) \<noteq>
     exact_sum (monthly_interests (Fin 1) (Fin 0) (Fin 10) 2)"
proof
  have "jadd (Fin 0) (Fin (3772685852075583 / 36028797018963968)) =
      Fin (3772685852075583 / 36028797018963968)"
    by (simp add: number_eval)
  moreover have "jadd (Fin (3772685852075583 / 36028797018963968))
      (Fin (4167735360138801 / 36028797018963968)) = Fin (496276325763399 / 2251799813685248)"
    by (simp add: number_eval)
  ultimately have "sum_numbers (map yearEndInterest
      (returned (calculateSchedule (Fin 1) (Fin 0) (Fin 10) (Fin 2) False))) =
      Fin (496276325763399 / 2251799813685248)"
    by (simp add: two_years_schedule sum_numbers_def)
  moreover have "sum_numbers (monthly_interests (Fin 1) (Fin 0) (Fin 10) 2) =
      Fin (7940421212214383 / 36028797018963968)"
    by (simp add: sum_monthly_interests two_years_total_24)
  ultimately show "sum_numbers (map yearEndInterest
      (returned (calculateSchedule (Fin 1) (Fin 0) (Fin 10) (Fin 2) False))) \<noteq>
      sum_numbers (monthly_interests (Fin 1) (Fin 0) (Fin 10) 2)"
    by simp
  show "exact_sum (map yearEndInterest
      (returned (calculateSchedule (Fin 1) (Fin 0) (Fin 10) (Fin 2) False))) \<noteq>
      exact_sum (monthly_interests (Fin 1) (Fin 0) (Fin 10) 2)"
    by (simp add: two_years_schedule two_years_months exact_sum_def)
qed

text \<open>
  C4, amended. In every sequence a call returns, the \<open>yearEndInterest\<close> of year \<open>y\<close> is the
  sum, taken in order from \<^verbatim>\<open>0.0\<close> on, of the interests of the twelve months
  \<open>12 * (y - 1) + 1, \<dots>, 12 * y\<close> of that year: every month's interest is counted in exactly
  one year, and nothing is carried across a year boundary. The sequence has \<open>n\<close> entries
  for every whole number \<open>n\<close> of years up to 4294967295.
\<close>

theorem year_interest_is_sum_of_its_months:
  "map yearEndInterest (returned (calculateSchedule b md r years w)) =
     map (\<lambda>y. sum_numbers (map (interest_in b (if w then md else Fin 0) r)
                 [Suc (12 * (y - 1))..<Suc (12 * y)]))
       [1..<Suc (length (returned (calculateSchedule b md r years w)))] \<and>
   (n \<le> 4294967295 \<longrightarrow>
      length (returned (calculateSchedule b md r (Fin (real n)) w)) = n)"
proof
  show "map yearEndInterest (returned (calculateSchedule b md r years w)) =
     map (\<lambda>y. sum_numbers (map (interest_in b (if w then md else Fin 0) r)
                 [Suc (12 * (y - 1))..<Suc (12 * y)]))
       [1..<Suc (length (returned (calculateSchedule b md r years w)))]"
    unfolding returned_length
    by (simp add: returned_rows summary_of_def interest_between_def sum_numbers_def comp_def
        del: upt_Suc)
  show "n \<le> 4294967295 \<longrightarrow>
      length (returned (calculateSchedule b md r (Fin (real n)) w)) = n"
    by (simp add: returned_length year_count_whole)
qed

theorem year_interest_is_sum_of_its_months_witness:
  "map yearEndInterest (returned (calculateSchedule (Fin 1) (Fin 0) (Fin 10) (Fin 2) False)) =
     [sum_numbers (map (interest_in (Fin 1) (Fin 0) (Fin 10)) [1..<13]),
      sum_numbers (map (interest_in (Fin 1) (Fin 0) (Fin 10)) [13..<25])] \<and>
   (2::nat) \<le> 4294967295 \<and>
   length (returned (calculateSchedule (Fin 1) (Fin 0) (Fin 10) (Fin 2) False)) = 2"
proof -
  note t = year_interest_is_sum_of_its_months [of "Fin 1" "Fin 0" "Fin 10" "Fin 2" False 2]
  from t have l: "length (returned (calculateSchedule (Fin 1) (Fin 0) (Fin 10) (Fin 2) False)) = 2"
    by simp
  have u: "[1..<Suc 2] = [1, 2]" by (simp add: upt_rec)
  from t [THEN conjunct1] show ?thesis
    unfolding l u by (simp del: upt_Suc)
qed

text \<open>
  C5 as stated fails in binary64 arithmetic. On a balance of \<open>2 ^ 53\<close> at rate 0, a monthly
  deposit of 1 is rounded away, so the balance with the deposit is not strictly greater;
  and with a balance and a deposit of \<open>2 ^ 1023\<close> at rate 0 the balance with the deposit is
  \<open>NaN\<close>, which is not greater than or equal to anything.
\<close>

theorem deposit_dominance_counterexample:
  "amount (Fin 9007199254740992) \<and> amount (Fin 1) \<and> amount (Fin 0) \<and> jlt (Fin 0) (Fin 1) \<and>
   \<not> jlt (yearEndBalance
            (returned (calculateSchedule (Fin 9007199254740992) (Fin 1) (Fin 0) (Fin 1) False) ! 0))
         (yearEndBalance
            (returned (calculateSchedule (Fin 9007199254740992) (Fin 1) (Fin 0) (Fin 1) True) ! 0)) \<and>
   amount (Fin (2 ^ 1023)) \<and>
   \<not> jle (yearEndBalance
            (returned (calculateSchedule (Fin (2 ^ 1023)) (Fin (2 ^ 1023)) (Fin 0) (Fin 1) False) ! 0))
         (yearEndBalance
            (returned (calculateSchedule (Fin (2 ^ 1023)) (Fin (2 ^ 1023)) (Fin 0) (Fin 1) True) ! 0))"
proof -
  have one: "0 < year_count (Fin 1)" by (simp add: year_count_numerals)
  note first = first_year_balance [OF one]
  have a: "yearEndBalance
      (returned (calculateSchedule (Fin 9007199254740992) (Fin 1) (Fin 0) (Fin 1) True) ! 0)
      = Fin 9007199254740992"
    by (simp only: first if_True absorbed_deposit)
  have "to_number 9007199254740992 = Fin 9007199254740992"
    using amount_2_53 by (simp only: amount.simps)
  then have b: "yearEndBalance
      (returned (calculateSchedule (Fin 9007199254740992) (Fin 1) (Fin 0) (Fin 1) False) ! 0)
      = Fin 9007199254740992"
    by (simp only: first if_False zero_rate_balance)
  have "overflow_bound \<le> 2 ^ 1023 + 2 ^ 1023"
    by (simp add: overflow_bound_def)
  then have "balance_after (Fin (2 ^ 1023)) (Fin (2 ^ 1023)) (Fin 0) (Suc 11) = NaN"
    by (rule overflowing_deposit)
  moreover have "Suc 11 = 12" by simp
  ultimately have c: "yearEndBalance
      (returned (calculateSchedule (Fin (2 ^ 1023)) (Fin (2 ^ 1023)) (Fin 0) (Fin 1) True) ! 0)
      = NaN"
    by (simp only: first if_True)
  have "to_number (2 ^ 1023) = Fin (2 ^ 1023)"
    using amount_2_1023 by (simp only: amount.simps)
  then have d: "yearEndBalance
      (returned (calculateSchedule (Fin (2 ^ 1023)) (Fin (2 ^ 1023)) (Fin 0) (Fin 1) False) ! 0)
      = Fin (2 ^ 1023)"
    by (simp only: first if_False zero_rate_balance)
  have "\<not> jlt (Fin 9007199254740992) (Fin 9007199254740992)"
    and "\<not> jle (Fin (2 ^ 1023)) NaN" and "jlt (Fin 0) (Fin 1)"
    by (simp_all del: power_numeral)
  with amount_zero amount_small(1) amount_2_53 amount_2_1023 show ?thesis
    unfolding a b c d by (intro conjI)
qed

text \<open>
  C5, amended. For initial balance, monthly deposit and rate that are finite, non-negative
  binary64 values, and for every year of the schedule: when the year-end balance of the run
  with the deposit is not \<open>NaN\<close>, it is greater than or equal to the year-end balance of the
  run without the deposit; and when it is finite and the monthly deposit is more than twice
  the spacing of binary64 values at it, it is strictly greater.
\<close>

theorem deposit_dominance_in_binary64:
  assumes "amount b" "amount md" "amount r"
    and "y < length (returned (calculateSchedule b md r years True))"
  shows "(\<not> isNaN (yearEndBalance (returned (calculateSchedule b md r years True) ! y)) \<longrightarrow>
      jle (yearEndBalance (returned (calculateSchedule b md r years False) ! y))
          (yearEndBalance (returned (calculateSchedule b md r years True) ! y))) \<and>
    (isFinite (yearEndBalance (returned (calculateSchedule b md r years True) ! y)) \<and>
     2 * spacing (yearEndBalance (returned (calculateSchedule b md r years True) ! y))
       < real_of md \<longrightarrow>
      jlt (yearEndBalance (returned (calculateSchedule b md r years False) ! y))
          (yearEndBalance (returned (calculateSchedule b md r years True) ! y)))"
proof -
  from assms(1) obtain x where b: "b = Fin x" "0 \<le> x" "to_number x = Fin x"
    by (cases b) simp_all
  from assms(2) obtain d where md: "md = Fin d" "0 \<le> d" by (cases md) simp_all
  from assms(3) obtain q where q: "jdiv (jdiv r (Fin 100)) (Fin 12) = Fin q" "0 \<le> q"
    by (rule monthly_rate_amount)
  from assms(4) have y: "y < year_count years" by (simp only: returned_length)
  have t: "yearEndBalance (returned (calculateSchedule b md r years True) ! y)
      = balance_after (Fin x) (Fin d) r (12 * Suc y)"
    by (simp add: returned_nth [OF y] summary_of_def b md)
  have f: "yearEndBalance (returned (calculateSchedule b md r years False) ! y)
      = balance_after (Fin x) (Fin 0) r (12 * Suc y)"
    by (simp add: returned_nth [OF y] summary_of_def b md)
  have weak: "jle (balance_after (Fin x) (Fin 0) r (12 * Suc y))
      (balance_after (Fin x) (Fin d) r (12 * Suc y))"
    if "\<not> isNaN (balance_after (Fin x) (Fin d) r (12 * Suc y))"
    using deposit_dominance [OF b(2) md(2) q that] by simp
  have strict: "jlt (balance_after (Fin x) (Fin 0) r (12 * Suc y))
      (balance_after (Fin x) (Fin d) r (12 * Suc y))"
    if fin: "isFinite (balance_after (Fin x) (Fin d) r (12 * Suc y))"
      and big: "2 * spacing (balance_after (Fin x) (Fin d) r (12 * Suc y)) < d"
  proof -
    from fin obtain v where v: "balance_after (Fin x) (Fin d) r (12 * Suc y) = Fin v"
      by (cases "balance_after (Fin x) (Fin d) r (12 * Suc y)") simp_all
    from balance_is_double [OF b(2,3) md(2) q v] have "0 \<le> v" by simp
    moreover from big have "2 * quantum \<bar>v\<bar> < d"
      unfolding v by (simp only: spacing.simps)
    ultimately have "2 * quantum v < d" by simp
    from deposit_strict [OF b(2,3) md(2) q v this _ order_refl] show ?thesis by simp
  qed
  show ?thesis
    unfolding t f using weak strict by (simp add: md(1))
qed

theorem deposit_dominance_in_binary64_witness:
  "amount (Fin 1000) \<and> amount (Fin 100) \<and> amount (Fin 5) \<and>
   0 < length (returned (calculateSchedule (Fin 1000) (Fin 100) (Fin 5) (Fin 5) True)) \<and>
   \<not> isNaN (yearEndBalance
     (returned (calculateSchedule (Fin 1000) (Fin 100) (Fin 5) (Fin 5) True) ! 0)) \<and>
   isFinite (yearEndBalance
     (returned (calculateSchedule (Fin 1000) (Fin 100) (Fin 5) (Fin 5) True) ! 0)) \<and>
   2 * spacing (yearEndBalance
     (returned (calculateSchedule (Fin 1000) (Fin 100) (Fin 5) (Fin 5) True) ! 0))
     < real_of (Fin 100) \<and>
   jle (yearEndBalance (returned (calculateSchedule (Fin 1000) (Fin 100) (Fin 5) (Fin 5) False) ! 0))
       (yearEndBalance (returned (calculateSchedule (Fin 1000) (Fin 100) (Fin 5) (Fin 5) True) ! 0)) \<and>
   jlt (yearEndBalance (returned (calculateSchedule (Fin 1000) (Fin 100) (Fin 5) (Fin 5) False) ! 0))
       (yearEndBalance (returned (calculateSchedule (Fin 1000) (Fin 100) (Fin 5) (Fin 5) True) ! 0))"
proof -
  have l: "0 < length (returned (calculateSchedule (Fin 1000) (Fin 100) (Fin 5) (Fin 5) True))"
    by (simp add: returned_length year_count_numerals)
  have "exponent_of (1255732239219677 / 549755813888) = 11"
    by (rule exponent_of_normal) simp_all
  then have s: "2 * spacing (yearEndBalance
     (returned (calculateSchedule (Fin 1000) (Fin 100) (Fin 5) (Fin 5) True) ! 0))
     < real_of (Fin 100)"
    by (simp add: first_year_deposit quantum_def)
  have n: "\<not> isNaN (yearEndBalance
      (returned (calculateSchedule (Fin 1000) (Fin 100) (Fin 5) (Fin 5) True) ! 0))"
    and i: "isFinite (yearEndBalance
      (returned (calculateSchedule (Fin 1000) (Fin 100) (Fin 5) (Fin 5) True) ! 0))"
    by (simp_all add: first_year_deposit)
  from deposit_dominance_in_binary64 [OF amount_1000 amount_small(3) amount_small(2) l]
    amount_1000 amount_small l n i s
  show ?thesis by blast
qed



text \<open>
  C7. With a monthly deposit of 0 the call with \<open>applyDeposit = true\<close> has the same outcome,
  and returns the same sequence, as the call with \<open>applyDeposit = false\<close>; and with
  \<open>applyDeposit = false\<close> the outcome is the same for any two values of the monthly deposit.
\<close>

theorem calculateSchedule_deposit_ignored:
  "calculateSchedule b (Fin 0) r years True = calculateSchedule b (Fin 0) r years False \<and>
   calculateSchedule b md r years False = calculateSchedule b md' r years False"
  by (simp add: calculateSchedule_def)




text \<open>
  C9 as stated fails: with 1000, a deposit of 100, 5 percent and 5 years, the first
  year-end balance of the run with the deposit does not show as 2351.16.
\<close>

theorem concrete_example_deposit_counterexample:
  "\<not> (agrees_to_cents
         (yearEndBalance
           (returned (calculateSchedule (Fin 1000) (Fin 100) (Fin 5) (Fin 5) False) ! 0)) 1051.16 \<and>
       agrees_to_cents
         (yearEndInterest
           (returned (calculateSchedule (Fin 1000) (Fin 100) (Fin 5) (Fin 5) False) ! 0)) 51.16 \<and>
       agrees_to_cents
         (yearEndBalance
           (returned (calculateSchedule (Fin 1000) (Fin 100) (Fin 5) (Fin 5) True) ! 0)) 2351.16)"
  by (simp add: first_year_deposit)

text \<open>
  C9, amended. With these inputs both calls return five summaries; the first summary of
  the run without the deposit shows a \<open>yearEndBalance\<close> of 1051.16 and a \<open>yearEndInterest\<close>
  of 51.16, and the first summary of the run with the deposit shows a \<open>yearEndBalance\<close> of
  2284.16.
\<close>

theorem concrete_example:
  "length (returned (calculateSchedule (Fin 1000) (Fin 100) (Fin 5) (Fin 5) False)) = 5 \<and>
   length (returned (calculateSchedule (Fin 1000) (Fin 100) (Fin 5) (Fin 5) True)) = 5 \<and>
   agrees_to_cents
     (yearEndBalance
       (returned (calculateSchedule (Fin 1000) (Fin 100) (Fin 5) (Fin 5) False) ! 0)) 1051.16 \<and>
   agrees_to_cents
     (yearEndInterest
       (returned (calculateSchedule (Fin 1000) (Fin 100) (Fin 5) (Fin 5) False) ! 0)) 51.16 \<and>
   agrees_to_cents
     (yearEndBalance
       (returned (calculateSchedule (Fin 1000) (Fin 100) (Fin 5) (Fin 5) True) ! 0)) 2284.16"
  by (simp add: first_year_deposit first_year_no_deposit returned_length year_count_numerals)

text \<open>
  C10. The copy of \<open>calculateSchedule\<close> in \<^verbatim>\<open>src/unnamed/part_000\<close> has the same outcome as
  the one in \<^verbatim>\<open>src/app.js\<close>, for every input: it returns the same sequence, throws where
  the other throws, and comes to an end where the other does.
\<close>

theorem calculateSchedule_copies_agree:
  "calculateSchedule_part_000 b md r years w = calculateSchedule b md r years w"
  by (simp add: calculateSchedule_part_000_def calculateSchedule_def schedule_loop_copies)

end
